theory Spec2Isabelle
  imports Main "HOL-Library.Word"
begin

section \<open>The abstract syntax tree\<close>

text \<open>
  \<^verbatim>\<open>Node.h\<close>: every AST item derives from \<^verbatim>\<open>Node\<close>, which carries a source location
  and a \<^verbatim>\<open>size_t unique_id\<close>. \<^verbatim>\<open>size_t\<close> is taken to be 64 bits wide; nothing below
  depends on the width except the numeral printed for \<^verbatim>\<open>SIZE_MAX\<close>.
  The location type comes from the generated \<^verbatim>\<open>location.hh\<close>: a file name and the
  line and column of both ends of the span.
\<close>

type_synonym size_t = "64 word"

datatype location = Location string nat nat nat nat

record node =
  loc :: location
  unique_id :: size_t

definition SIZE_MAX :: size_t where
  "SIZE_MAX = - 1"

text \<open>
  \<^verbatim>\<open>Node::Node(const location &loc_)\<close> with the in-class initialiser
  \<^verbatim>\<open>size_t unique_id = SIZE_MAX;\<close>.
\<close>

definition Node :: "location \<Rightarrow> node" where
  "Node l = \<lparr>loc = l, unique_id = SIZE_MAX\<rparr>"

text \<open>
  The expression classes of \<^verbatim>\<open>Expr.h\<close>. The leaf classes below \<^verbatim>\<open>BinaryExpr\<close> and
  \<^verbatim>\<open>UnaryExpr\<close> differ only in their dynamic type, which becomes a tag. Constructors
  whose C++ name is already a HOL constant carry a suffix.
\<close>

datatype binop =
  Implication | Or | And | Lt | Leq | Gt | Geq | Eq | Neq | Add | Sub | Mul | Div | Mod

datatype unop = Not_op | Negative

datatype category = DISABLED | ASSERTION | ASSUMPTION

text \<open>
  \<^verbatim>\<open>Expr.h\<close> gives the expression classes and \<^verbatim>\<open>Quantifier\<close>, \<^verbatim>\<open>Function.h\<close> gives
  \<^verbatim>\<open>Function\<close>; fields are listed in the order of the class definitions.
  \<^verbatim>\<open>ExprID.value\<close>, \<^verbatim>\<open>FunctionCall.function\<close> and \<^verbatim>\<open>ProcedureCall.function\<close> are
  pointers that are null until symbol resolution has run, hence options.

  Modelled from the spec: the classes whose headers are not among the sources
  (\<^verbatim>\<open>TypeExpr.h\<close>, \<^verbatim>\<open>Decl.h\<close>, \<^verbatim>\<open>Property.h\<close>, \<^verbatim>\<open>Number.h\<close> and the \<^verbatim>\<open>Stmt.h\<close> that
  goes with \<^verbatim>\<open>Rule.cc\<close>). Their variants are those of section 3 of the specification;
  their fields are the ones the sources at hand read: \<^verbatim>\<open>translate.cc\<close> for \<^verbatim>\<open>Number\<close>
  and \<^verbatim>\<open>IsUndefined\<close>, \<^verbatim>\<open>generate-stmt.cc\<close> for the statements and \<^verbatim>\<open>IfClause\<close>,
  \<^verbatim>\<open>generate_c.cc\<close> and \<^verbatim>\<open>Decl.cc\<close> for type expressions, declarations and
  \<^verbatim>\<open>Property\<close>.
\<close>

datatype expr =
    Ternary node expr expr expr
  | BinaryExpr node binop expr expr
  | UnaryExpr node unop expr
  | ExprID node string "decl option"
  | Field_expr node expr string
  | Element node expr expr
  | FunctionCall node string "func option" "expr list"
  | Exists node quantifier expr
  | Forall node quantifier expr
  | Number node int
  | IsUndefined node expr
and quantifier =
    Quantifier node string "typeexpr option" "expr option" "expr option" "expr option"
and typeexpr =
    TypeExprID node string
  | Range_type node expr expr
  | Enum node "(string \<times> location) list"
  | Scalarset node expr
  | Array node typeexpr typeexpr
  | Record node "decl list"
and decl =
    ConstDecl node string expr
  | TypeDecl node string typeexpr
  | VarDecl node string typeexpr bool
  | AliasDecl node string expr
and stmt =
    Assignment node expr expr
  | Clear node expr
  | ErrorStmt node string
  | For node quantifier "stmt list"
  | If_stmt node "ifclause list"
  | ProcedureCall node string "func option" "expr list"
  | PropertyStmt node property string
  | Return node "expr option"
  | Undefine node expr
  | While node expr "stmt list"
  | Switch node expr "switchcase list"
and ifclause = IfClause node "expr option" "stmt list"
and switchcase = SwitchCase node "expr list" "stmt list"
and property = Property_node node category expr
and func = Function node string "decl list" "typeexpr option" "decl list" "stmt list"

fun decl_node :: "decl \<Rightarrow> node" where
  "decl_node (ConstDecl h _ _) = h"
| "decl_node (TypeDecl h _ _) = h"
| "decl_node (VarDecl h _ _ _) = h"
| "decl_node (AliasDecl h _ _) = h"

fun typeexpr_node :: "typeexpr \<Rightarrow> node" where
  "typeexpr_node (TypeExprID h _) = h"
| "typeexpr_node (Range_type h _ _) = h"
| "typeexpr_node (Enum h _) = h"
| "typeexpr_node (Scalarset h _) = h"
| "typeexpr_node (Array h _ _) = h"
| "typeexpr_node (Record h _) = h"


text \<open>
  Methods of the AST library whose bodies are in files other than the ones modelled here
  (\<^verbatim>\<open>Expr::type()\<close>, where a null result stands for the type of a numeric literal,
  \<^verbatim>\<open>TypeExpr::resolve()\<close> and \<^verbatim>\<open>TypeExpr::operator==\<close>). The code below calls them; they
  are parameters of every definition that does.
\<close>

record ast_methods =
  type_of :: "expr \<Rightarrow> typeexpr option"
  resolve :: "typeexpr \<Rightarrow> typeexpr"
  type_equal :: "typeexpr \<Rightarrow> typeexpr \<Rightarrow> bool"

text \<open>\<^verbatim>\<open>isa<Range>\<close>.\<close>

fun isa_Range :: "typeexpr \<Rightarrow> bool" where
  "isa_Range (Range_type _ _ _) = True"
| "isa_Range _ = False"

text \<open>
  \<^verbatim>\<open>throw Error(message, loc)\<close> of the AST library, and the abort of a failed
  \<^verbatim>\<open>assert\<close>.
\<close>

datatype error = Error string location | Assertion_failed


section \<open>The SMT translator\<close>

subsection \<open>Name mangling\<close>

text \<open>
  \<^verbatim>\<open>lower\<close> of \<^verbatim>\<open>translate.cc\<close> applies C's \<^verbatim>\<open>tolower\<close> to each character; in the C
  locale that maps \<^verbatim>\<open>A\<close>..\<^verbatim>\<open>Z\<close> to \<^verbatim>\<open>a\<close>..\<^verbatim>\<open>z\<close> and leaves every other character.
\<close>

definition tolower :: "char \<Rightarrow> char" where
  "tolower c =
     (case map_of (zip ''ABCDEFGHIJKLMNOPQRSTUVWXYZ'' ''abcdefghijklmnopqrstuvwxyz'') c of
        Some l \<Rightarrow> l
      | None \<Rightarrow> c)"

definition lower :: "string \<Rightarrow> string" where
  "lower s = foldl (\<lambda>s1 c. s1 @ [tolower c]) [] s"

text \<open>\<^verbatim>\<open>std::to_string\<close> on an unsigned value: its decimal digits, most significant first.\<close>

definition digit :: "nat \<Rightarrow> char" where
  "digit d = ''0123456789'' ! d"

fun to_string :: "nat \<Rightarrow> string" where
  "to_string n = (if n < 10 then [digit n] else to_string (n div 10) @ [digit (n mod 10)])"

declare to_string.simps [simp del]

text \<open>
  \<^verbatim>\<open>mangle\<close>: the debugging suffix is switched off by the constant \<^verbatim>\<open>false\<close> in the
  source and is kept as written.
\<close>

definition mangle :: "string \<Rightarrow> size_t \<Rightarrow> string" where
  "mangle s id' =
     (let suffix = (if False then ''; '' @ s @ [CHR 0x0A] else '''');
          l = lower s
      in if l = ''true'' \<or> l = ''false'' then l @ suffix
         else if l = ''boolean'' then ''Bool'' @ suffix
         else ''s'' @ to_string (unat id') @ suffix)"

text \<open>Reading a decimal numeral back, used to state what "the decimal unique id" means.\<close>

definition digit_value :: "char \<Rightarrow> nat" where
  "digit_value c = (case map_of (zip ''0123456789'' [0 ..< 10]) c of Some v \<Rightarrow> v | None \<Rightarrow> 0)"

definition of_decimal :: "string \<Rightarrow> nat" where
  "of_decimal ds = foldl (\<lambda>acc c. 10 * acc + digit_value c) 0 ds"

definition is_digit :: "char \<Rightarrow> bool" where
  "is_digit c \<longleftrightarrow> c \<in> set ''0123456789''"

subsection \<open>The translator\<close>

text \<open>
  What \<^verbatim>\<open>translate.cc\<close> takes from files that are not part of the translator itself:
  the operator symbols of the selected logic (\<^verbatim>\<open>logic.h\<close>: \<^verbatim>\<open>add()\<close>, \<^verbatim>\<open>div()\<close>, ...),
  the printer of numeric literals, and the AST methods above. They are parameters here.
\<close>

record smt_env = ast_methods +
  logic_add :: string
  logic_div :: string
  logic_geq :: string
  logic_gt :: string
  logic_leq :: string
  logic_lt :: string
  logic_mod :: string
  logic_mul :: string
  logic_neg :: string
  logic_sub :: string
  numeric_literal :: "int \<Rightarrow> string"

text \<open>
  The translator throws \<^verbatim>\<open>Unsupported(n)\<close>. Dereferencing a null \<^verbatim>\<open>value\<close> or a null
  \<^verbatim>\<open>type()\<close> has no defined behaviour in C++; the model gives it an outcome of its own so
  that it is never mistaken for a translation.
\<close>

datatype smt_failure = Unsupported expr | NullDereference

text \<open>
  Each \<^verbatim>\<open>visit_*\<close> method appends to the translator's buffer, left to right, and
  dispatches on the operands in between. The text a binary or unary operator writes
  before its first operand and after its last one:
\<close>

fun binop_open :: "smt_env \<Rightarrow> binop \<Rightarrow> string" where
  "binop_open E Add = ''('' @ logic_add E @ '' ''"
| "binop_open E And = ''(and ''"
| "binop_open E Eq = ''(= ''"
| "binop_open E Div = ''('' @ logic_div E @ '' ''"
| "binop_open E Geq = ''('' @ logic_geq E @ '' ''"
| "binop_open E Gt = ''('' @ logic_gt E @ '' ''"
| "binop_open E Implication = ''(=> ''"
| "binop_open E Leq = ''('' @ logic_leq E @ '' ''"
| "binop_open E Lt = ''('' @ logic_lt E @ '' ''"
| "binop_open E Mod = ''('' @ logic_mod E @ '' ''"
| "binop_open E Mul = ''('' @ logic_mul E @ '' ''"
| "binop_open E Neq = ''(not (= ''"
| "binop_open E Or = ''(or ''"
| "binop_open E Sub = ''('' @ logic_sub E @ '' ''"

fun binop_close :: "binop \<Rightarrow> string" where
  "binop_close Neq = ''))''"
| "binop_close _ = '')''"

fun unop_open :: "smt_env \<Rightarrow> unop \<Rightarrow> string" where
  "unop_open E Negative = ''('' @ logic_neg E @ '' ''"
| "unop_open E Not_op = ''(not ''"

fun dispatch :: "smt_env \<Rightarrow> expr \<Rightarrow> string \<Rightarrow> smt_failure + string" where
  "dispatch E (BinaryExpr h bop lhs rhs) buffer =
     (case dispatch E lhs (buffer @ binop_open E bop) of
        Inl x \<Rightarrow> Inl x
      | Inr b1 \<Rightarrow>
          (case dispatch E rhs (b1 @ '' '') of
             Inl x \<Rightarrow> Inl x
           | Inr b2 \<Rightarrow> Inr (b2 @ binop_close bop)))"
| "dispatch E (Element h array index) buffer =
     (case dispatch E array (buffer @ ''(select '') of
        Inl x \<Rightarrow> Inl x
      | Inr b1 \<Rightarrow>
          (case dispatch E index (b1 @ '' '') of
             Inl x \<Rightarrow> Inl x
           | Inr b2 \<Rightarrow> Inr (b2 @ '')'')))"
| "dispatch E (ExprID h id' val) buffer =
     (case val of
        None \<Rightarrow> Inl NullDereference
      | Some d \<Rightarrow> Inr (buffer @ mangle id' (unique_id (decl_node d))))"
| "dispatch E (Exists h q e) buffer = Inl (Unsupported (Exists h q e))"
| "dispatch E (Field_expr h record' field) buffer =
     (case type_of E record' of
        None \<Rightarrow> Inl NullDereference
      | Some t \<Rightarrow>
          (let type = resolve E t;
               root = mangle '''' (unique_id (typeexpr_node type));
               getter = root @ ''_'' @ field
           in case dispatch E record' (buffer @ ''('' @ getter @ '' '') of
                Inl x \<Rightarrow> Inl x
              | Inr b1 \<Rightarrow> Inr (b1 @ '')'')))"
| "dispatch E (Forall h q e) buffer = Inl (Unsupported (Forall h q e))"
| "dispatch E (FunctionCall h name f args) buffer =
     Inl (Unsupported (FunctionCall h name f args))"
| "dispatch E (IsUndefined h e) buffer = Inl (Unsupported (IsUndefined h e))"
| "dispatch E (UnaryExpr h uop rhs) buffer =
     (case dispatch E rhs (buffer @ unop_open E uop) of
        Inl x \<Rightarrow> Inl x
      | Inr b1 \<Rightarrow> Inr (b1 @ '')''))"
| "dispatch E (Number h v) buffer = Inr (buffer @ numeric_literal E v)"
| "dispatch E (Ternary h cond lhs rhs) buffer =
     (case dispatch E cond (buffer @ ''(ite '') of
        Inl x \<Rightarrow> Inl x
      | Inr b1 \<Rightarrow>
          (case dispatch E lhs (b1 @ '' '') of
             Inl x \<Rightarrow> Inl x
           | Inr b2 \<Rightarrow>
               (case dispatch E rhs (b2 @ '' '') of
                  Inl x \<Rightarrow> Inl x
                | Inr b3 \<Rightarrow> Inr (b3 @ '')''))))"

text \<open>\<^verbatim>\<open>translate\<close>: a fresh translator, one dispatch, the buffer's contents.\<close>

definition translate :: "smt_env \<Rightarrow> expr \<Rightarrow> smt_failure + string" where
  "translate E e = dispatch E e ''''"

text \<open>
  The subexpressions of an expression: the expression itself and, recursively, its
  operand expressions. A quantified expression, a function call or an
  \<^verbatim>\<open>isundefined\<close> test occurring among them is what the translator rejects.
\<close>

fun subexprs :: "expr \<Rightarrow> expr list" where
  "subexprs (Ternary h c l r) = Ternary h c l r # subexprs c @ subexprs l @ subexprs r"
| "subexprs (BinaryExpr h bop l r) = BinaryExpr h bop l r # subexprs l @ subexprs r"
| "subexprs (UnaryExpr h uop r) = UnaryExpr h uop r # subexprs r"
| "subexprs (ExprID h i v) = [ExprID h i v]"
| "subexprs (Field_expr h r f) = Field_expr h r f # subexprs r"
| "subexprs (Element h a i) = Element h a i # subexprs a @ subexprs i"
| "subexprs (FunctionCall h n f args) = FunctionCall h n f args # concat (map subexprs args)"
| "subexprs (Exists h q e) = Exists h q e # subexprs e"
| "subexprs (Forall h q e) = Forall h q e # subexprs e"
| "subexprs (Number h v) = [Number h v]"
| "subexprs (IsUndefined h e) = IsUndefined h e # subexprs e"

fun quantified_or_call :: "expr \<Rightarrow> bool" where
  "quantified_or_call (Exists _ _ _) = True"
| "quantified_or_call (Forall _ _ _) = True"
| "quantified_or_call (FunctionCall _ _ _ _) = True"
| "quantified_or_call _ = False"

fun is_IsUndefined :: "expr \<Rightarrow> bool" where
  "is_IsUndefined (IsUndefined _ _) = True"
| "is_IsUndefined _ = False"

text \<open>
  The nodes at which the translator dereferences a pointer that is null: an identifier
  that symbol resolution has not linked, a field access on an expression without a type.
\<close>

fun dereferences_null :: "smt_env \<Rightarrow> expr \<Rightarrow> bool" where
  "dereferences_null E (ExprID _ _ v) = (v = None)"
| "dereferences_null E (Field_expr _ r _) = (type_of E r = None)"
| "dereferences_null E _ = False"


section \<open>Traversal and the checks on return statements\<close>

text \<open>
  Modelled from the spec: \<^verbatim>\<open>ConstTraversal\<close> (\<^verbatim>\<open>traverse.h\<close>, \<^verbatim>\<open>traverse.cc\<close>), the
  visitor whose "default handler recurses into children", in the order the fields are
  declared. The two subclasses in \<^verbatim>\<open>Rule.cc\<close> and \<^verbatim>\<open>Function.cc\<close> override
  \<^verbatim>\<open>visit\<close> for \<^verbatim>\<open>Function\<close>, \<^verbatim>\<open>FunctionCall\<close>, \<^verbatim>\<open>ProcedureCall\<close> and \<^verbatim>\<open>Return\<close>; a
  visitor is the set of these overrides, each absent or present. The function a call
  refers to counts as a child of the call: the comment on the overrides in \<^verbatim>\<open>Rule.cc\<close>
  ("Avoid recursing into functions, that may have return statements with an
  expression") says that the default handlers reach it.
\<close>

record visitor =
  visit_Function :: "(func \<Rightarrow> error + unit) option"
  visit_FunctionCall :: "(expr \<Rightarrow> error + unit) option"
  visit_ProcedureCall :: "(stmt \<Rightarrow> error + unit) option"
  visit_Return :: "(node \<Rightarrow> expr option \<Rightarrow> error + unit) option"

text \<open>Visits in sequence: the first exception thrown ends the traversal.\<close>

fun in_order :: "(error + unit) list \<Rightarrow> error + unit" where
  "in_order [] = Inr ()"
| "in_order (Inl e # rs) = Inl e"
| "in_order (Inr u # rs) = in_order rs"

fun if_present :: "(error + unit) option \<Rightarrow> error + unit" where
  "if_present None = Inr ()"
| "if_present (Some r) = r"

primrec
    visit_expr :: "visitor \<Rightarrow> expr \<Rightarrow> error + unit"
and visit_quantifier :: "visitor \<Rightarrow> quantifier \<Rightarrow> error + unit"
and visit_typeexpr :: "visitor \<Rightarrow> typeexpr \<Rightarrow> error + unit"
and visit_decl :: "visitor \<Rightarrow> decl \<Rightarrow> error + unit"
and visit_stmt :: "visitor \<Rightarrow> stmt \<Rightarrow> error + unit"
and visit_ifclause :: "visitor \<Rightarrow> ifclause \<Rightarrow> error + unit"
and visit_switchcase :: "visitor \<Rightarrow> switchcase \<Rightarrow> error + unit"
and visit_property :: "visitor \<Rightarrow> property \<Rightarrow> error + unit"
and visit_func :: "visitor \<Rightarrow> func \<Rightarrow> error + unit"
where
  "visit_expr V (Ternary h c l r) = in_order [visit_expr V c, visit_expr V l, visit_expr V r]"
| "visit_expr V (BinaryExpr h bop l r) = in_order [visit_expr V l, visit_expr V r]"
| "visit_expr V (UnaryExpr h uop r) = visit_expr V r"
| "visit_expr V (ExprID h i v) = if_present (map_option (visit_decl V) v)"
| "visit_expr V (Field_expr h r f) = visit_expr V r"
| "visit_expr V (Element h a i) = in_order [visit_expr V a, visit_expr V i]"
| "visit_expr V (FunctionCall h n f args) =
     (case visit_FunctionCall V of
        Some g \<Rightarrow> g (FunctionCall h n f args)
      | None \<Rightarrow> in_order (if_present (map_option (visit_func V) f) # map (visit_expr V) args))"
| "visit_expr V (Exists h q e) = in_order [visit_quantifier V q, visit_expr V e]"
| "visit_expr V (Forall h q e) = in_order [visit_quantifier V q, visit_expr V e]"
| "visit_expr V (Number h v) = Inr ()"
| "visit_expr V (IsUndefined h e) = visit_expr V e"
| "visit_quantifier V (Quantifier h n t from to step) =
     in_order [if_present (map_option (visit_typeexpr V) t),
               if_present (map_option (visit_expr V) from),
               if_present (map_option (visit_expr V) to),
               if_present (map_option (visit_expr V) step)]"
| "visit_typeexpr V (TypeExprID h n) = Inr ()"
| "visit_typeexpr V (Range_type h mn mx) = in_order [visit_expr V mn, visit_expr V mx]"
| "visit_typeexpr V (Enum h ms) = Inr ()"
| "visit_typeexpr V (Scalarset h b) = visit_expr V b"
| "visit_typeexpr V (Array h it et) = in_order [visit_typeexpr V it, visit_typeexpr V et]"
| "visit_typeexpr V (Record h fs) = in_order (map (visit_decl V) fs)"
| "visit_decl V (ConstDecl h n v) = visit_expr V v"
| "visit_decl V (TypeDecl h n t) = visit_typeexpr V t"
| "visit_decl V (VarDecl h n t ro) = visit_typeexpr V t"
| "visit_decl V (AliasDecl h n v) = visit_expr V v"
| "visit_stmt V (Assignment h l r) = in_order [visit_expr V l, visit_expr V r]"
| "visit_stmt V (Clear h r) = visit_expr V r"
| "visit_stmt V (ErrorStmt h m) = Inr ()"
| "visit_stmt V (For h q body) = in_order (visit_quantifier V q # map (visit_stmt V) body)"
| "visit_stmt V (If_stmt h cs) = in_order (map (visit_ifclause V) cs)"
| "visit_stmt V (ProcedureCall h n f args) =
     (case visit_ProcedureCall V of
        Some g \<Rightarrow> g (ProcedureCall h n f args)
      | None \<Rightarrow> in_order (if_present (map_option (visit_func V) f) # map (visit_expr V) args))"
| "visit_stmt V (PropertyStmt h p m) = visit_property V p"
| "visit_stmt V (Return h e) =
     (case visit_Return V of
        Some g \<Rightarrow> g h e
      | None \<Rightarrow> if_present (map_option (visit_expr V) e))"
| "visit_stmt V (Undefine h r) = visit_expr V r"
| "visit_stmt V (While h c body) = in_order (visit_expr V c # map (visit_stmt V) body)"
| "visit_stmt V (Switch h e cs) = in_order (visit_expr V e # map (visit_switchcase V) cs)"
| "visit_ifclause V (IfClause h c body) =
     in_order (if_present (map_option (visit_expr V) c) # map (visit_stmt V) body)"
| "visit_switchcase V (SwitchCase h ms body) =
     in_order (map (visit_expr V) ms @ map (visit_stmt V) body)"
| "visit_property V (Property_node h c e) = visit_expr V e"
| "visit_func V (Function h n ps rt ds body) =
     (case visit_Function V of
        Some g \<Rightarrow> g (Function h n ps rt ds body)
      | None \<Rightarrow>
          in_order (map (visit_decl V) ps @ [if_present (map_option (visit_typeexpr V) rt)]
                    @ map (visit_decl V) ds @ map (visit_stmt V) body))"

subsection \<open>Rules\<close>

text \<open>
  The rule classes of \<^verbatim>\<open>Rule.cc\<close>. Every rule has the fields of the base class
  \<^verbatim>\<open>Rule\<close> (name, quantifiers, aliases) before its own.
\<close>

datatype rule =
    SimpleRule node string "quantifier list" "decl list" "expr option" "decl list" "stmt list"
  | StartState node string "quantifier list" "decl list" "decl list" "stmt list"
  | PropertyRule node string "quantifier list" "decl list" property
  | Ruleset node string "quantifier list" "decl list" "rule list"
  | AliasRule node string "quantifier list" "decl list" "rule list"

fun visit_rule :: "visitor \<Rightarrow> rule \<Rightarrow> error + unit" where
  "visit_rule V (SimpleRule h n qs as g ds body) =
     in_order (map (visit_quantifier V) qs @ map (visit_decl V) as
               @ [if_present (map_option (visit_expr V) g)]
               @ map (visit_decl V) ds @ map (visit_stmt V) body)"
| "visit_rule V (StartState h n qs as ds body) =
     in_order (map (visit_quantifier V) qs @ map (visit_decl V) as
               @ map (visit_decl V) ds @ map (visit_stmt V) body)"
| "visit_rule V (PropertyRule h n qs as p) =
     in_order (map (visit_quantifier V) qs @ map (visit_decl V) as @ [visit_property V p])"
| "visit_rule V (Ruleset h n qs as rules) =
     in_order (map (visit_quantifier V) qs @ map (visit_decl V) as @ map (visit_rule V) rules)"
| "visit_rule V (AliasRule h n qs as rules) =
     in_order (map (visit_quantifier V) qs @ map (visit_decl V) as @ map (visit_rule V) rules)"

text \<open>
  \<^verbatim>\<open>ReturnChecker\<close> of \<^verbatim>\<open>Rule.cc\<close>: three overrides that do nothing and the one on
  \<^verbatim>\<open>Return\<close> that throws when the statement has an expression.
\<close>

definition ReturnChecker :: visitor where
  "ReturnChecker =
     \<lparr>visit_Function = Some (\<lambda>_. Inr ()),
      visit_FunctionCall = Some (\<lambda>_. Inr ()),
      visit_ProcedureCall = Some (\<lambda>_. Inr ()),
      visit_Return = Some (\<lambda>n e.
        if e \<noteq> None
        then Inl (Error ''return statement in rule or startstate returns a value'' (loc n))
        else Inr ())\<rparr>"

definition ReturnChecker_check :: "rule \<Rightarrow> error + unit" where
  "ReturnChecker_check n = visit_rule ReturnChecker n"

text \<open>\<^verbatim>\<open>SimpleRule::validate\<close> and \<^verbatim>\<open>StartState::validate\<close>.\<close>

definition SimpleRule_validate :: "rule \<Rightarrow> error + unit" where
  "SimpleRule_validate r = ReturnChecker_check r"

definition StartState_validate :: "rule \<Rightarrow> error + unit" where
  "StartState_validate r = ReturnChecker_check r"

text \<open>
  The local \<^verbatim>\<open>ReturnChecker\<close> of \<^verbatim>\<open>Function::validate\<close>: only \<^verbatim>\<open>Return\<close> is
  overridden, with the function's return type in hand.
\<close>

definition Function_visit_Return ::
    "'a ast_methods_scheme \<Rightarrow> typeexpr option \<Rightarrow> node \<Rightarrow> expr option \<Rightarrow> error + unit" where
  "Function_visit_Return M return_type n e =
     (case return_type of
        None \<Rightarrow>
          if e \<noteq> None then Inl (Error ''statement returns a value from a procedure'' (loc n))
          else Inr ()
      | Some rt \<Rightarrow>
          (case e of
             None \<Rightarrow> Inl (Error ''empty return statement in a function'' (loc n))
           | Some ex \<Rightarrow>
               (case type_of M ex of
                  None \<Rightarrow>
                    if \<not> isa_Range (resolve M rt)
                    then Inl (Error
                      ''returning a number from a function that does not return a range'' (loc n))
                    else Inr ()
                | Some t \<Rightarrow>
                    if \<not> type_equal M t rt
                    then Inl (Error ''returning incompatible typed value from a function'' (loc n))
                    else Inr ())))"

definition Function_ReturnChecker :: "'a ast_methods_scheme \<Rightarrow> typeexpr option \<Rightarrow> visitor" where
  "Function_ReturnChecker M rt =
     \<lparr>visit_Function = None, visit_FunctionCall = None, visit_ProcedureCall = None,
      visit_Return = Some (Function_visit_Return M rt)\<rparr>"

fun Function_validate :: "'a ast_methods_scheme \<Rightarrow> func \<Rightarrow> error + unit" where
  "Function_validate M (Function h name parameters return_type decls body) =
     in_order (map (visit_stmt (Function_ReturnChecker M return_type)) body)"

text \<open>
  The statements of a body: the statements of the list and, recursively, those of the
  bodies of its loops, conditionals and switches. The bodies of called functions are
  not among them.
\<close>

fun stmts_of :: "stmt \<Rightarrow> stmt list"
and clause_stmts :: "ifclause \<Rightarrow> stmt list"
and case_stmts :: "switchcase \<Rightarrow> stmt list" where
  "stmts_of (For h q body) = For h q body # concat (map stmts_of body)"
| "stmts_of (If_stmt h cs) = If_stmt h cs # concat (map clause_stmts cs)"
| "stmts_of (While h c body) = While h c body # concat (map stmts_of body)"
| "stmts_of (Switch h e cs) = Switch h e cs # concat (map case_stmts cs)"
| "stmts_of (Assignment h l r) = [Assignment h l r]"
| "stmts_of (Clear h r) = [Clear h r]"
| "stmts_of (ErrorStmt h m) = [ErrorStmt h m]"
| "stmts_of (ProcedureCall h n f args) = [ProcedureCall h n f args]"
| "stmts_of (PropertyStmt h p m) = [PropertyStmt h p m]"
| "stmts_of (Return h e) = [Return h e]"
| "stmts_of (Undefine h r) = [Undefine h r]"
| "clause_stmts (IfClause h c body) = concat (map stmts_of body)"
| "case_stmts (SwitchCase h ms body) = concat (map stmts_of body)"

definition body_stmts :: "stmt list \<Rightarrow> stmt list" where
  "body_stmts body = concat (map stmts_of body)"

fun returns_value :: "stmt \<Rightarrow> bool" where
  "returns_value (Return _ (Some _)) = True"
| "returns_value _ = False"

text \<open>What an exception of the given message, at whatever location, or no exception is.\<close>

definition raises_only :: "string \<Rightarrow> error + unit \<Rightarrow> bool" where
  "raises_only m r \<longleftrightarrow> r = Inr () \<or> (\<exists>l. r = Inl (Error m l))"


section \<open>Flattening rules\<close>

text \<open>
  \<^verbatim>\<open>f->quantifiers.insert(f->quantifiers.begin(), q)\<close> and the same on
  \<^verbatim>\<open>f->aliases\<close>: the element goes in front of the rule's list.
\<close>

fun insert_quantifier :: "rule \<Rightarrow> quantifier \<Rightarrow> rule" where
  "insert_quantifier (SimpleRule h n qs as g ds body) q = SimpleRule h n (q # qs) as g ds body"
| "insert_quantifier (StartState h n qs as ds body) q = StartState h n (q # qs) as ds body"
| "insert_quantifier (PropertyRule h n qs as p) q = PropertyRule h n (q # qs) as p"
| "insert_quantifier (Ruleset h n qs as rules) q = Ruleset h n (q # qs) as rules"
| "insert_quantifier (AliasRule h n qs as rules) q = AliasRule h n (q # qs) as rules"

fun insert_alias :: "rule \<Rightarrow> decl \<Rightarrow> rule" where
  "insert_alias (SimpleRule h n qs as g ds body) a = SimpleRule h n qs (a # as) g ds body"
| "insert_alias (StartState h n qs as ds body) a = StartState h n qs (a # as) ds body"
| "insert_alias (PropertyRule h n qs as p) a = PropertyRule h n qs (a # as) p"
| "insert_alias (Ruleset h n qs as rules) a = Ruleset h n qs (a # as) rules"
| "insert_alias (AliasRule h n qs as rules) a = AliasRule h n qs (a # as) rules"

fun quantifiers :: "rule \<Rightarrow> quantifier list" where
  "quantifiers (SimpleRule h n qs as g ds body) = qs"
| "quantifiers (StartState h n qs as ds body) = qs"
| "quantifiers (PropertyRule h n qs as p) = qs"
| "quantifiers (Ruleset h n qs as rules) = qs"
| "quantifiers (AliasRule h n qs as rules) = qs"

text \<open>
  \<^verbatim>\<open>Rule::flatten\<close> returns the one-element vector holding \<^verbatim>\<open>clone()\<close>, a copy with the
  same fields; \<^verbatim>\<open>AliasRule\<close> and \<^verbatim>\<open>Ruleset\<close> override it. Their two outer loops append
  to \<^verbatim>\<open>rs\<close> in order; the innermost loop runs over the aliases or quantifiers of the
  rule set from first to last, inserting each at the front.
\<close>

fun flatten :: "rule \<Rightarrow> rule list" where
  "flatten (AliasRule h n qs as rules) =
     concat (map (\<lambda>r. map (\<lambda>f. foldl insert_alias f as) (flatten r)) rules)"
| "flatten (Ruleset h n qs as rules) =
     concat (map (\<lambda>r. map (\<lambda>f. foldl insert_quantifier f qs) (flatten r)) rules)"
| "flatten r = [r]"


section \<open>The symbol table\<close>

text \<open>
  \<^verbatim>\<open>Symtab.h\<close>. The table holds pointers to nodes and hands out pointers to fresh
  copies, so the model has a heap: a list of cells, the address of a cell being its
  index, each cell holding a node together with everything the node owns. \<^verbatim>\<open>new\<close>
  takes the next index. The node type is left open, as the table is generic in it;
  the test \<^verbatim>\<open>dynamic_cast<U*>\<close> of \<^verbatim>\<open>lookup<U>\<close> is a predicate on nodes.
\<close>

type_synonym addr = nat

record 'n symtab =
  scope :: "(string \<rightharpoonup> addr) list"
  heap :: "'n list"

definition new :: "'n \<Rightarrow> 'n list \<Rightarrow> addr \<times> 'n list" where
  "new v h = (length h, h @ [v])"

text \<open>\<^verbatim>\<open>clone()\<close>, in every class whose source is at hand, is \<^verbatim>\<open>return new X(*this);\<close>.\<close>

definition clone :: "addr \<Rightarrow> 'n list \<Rightarrow> addr \<times> 'n list" where
  "clone p h = new (h ! p) h"

definition open_scope :: "'n symtab \<Rightarrow> 'n symtab" where
  "open_scope st = st\<lparr>scope := scope st @ [Map.empty]\<rparr>"

definition close_scope :: "'n symtab \<Rightarrow> error + 'n symtab" where
  "close_scope st =
     (if scope st = [] then Inl Assertion_failed
      else Inr (st\<lparr>scope := butlast (scope st)\<rparr>))"

text \<open>
  \<^verbatim>\<open>declare(name, const Ptr<Node>&)\<close>: \<^verbatim>\<open>scope.back()[name] = value\<close>. The entry of the
  topmost map is created or overwritten; the stored pointer is the one given.
  (\<^verbatim>\<open>Ptr.h\<close> is not among the sources. Should assigning a \<^verbatim>\<open>Ptr\<close> copy what it points
  to, the table would hold one more fresh copy; none of the properties below depends on
  which it is.)
\<close>

definition declare_Ptr :: "string \<Rightarrow> addr \<Rightarrow> 'n symtab \<Rightarrow> error + 'n symtab" where
  "declare_Ptr name val st =
     (if scope st = [] then Inl Assertion_failed
      else Inr (st\<lparr>scope := butlast (scope st) @ [(last (scope st))(name \<mapsto> val)]\<rparr>))"

text \<open>\<^verbatim>\<open>declare(name, const std::shared_ptr<Node>&)\<close>: declares a clone of the node.\<close>

definition declare_shared_ptr :: "string \<Rightarrow> addr \<Rightarrow> 'n symtab \<Rightarrow> error + 'n symtab" where
  "declare_shared_ptr name val st =
     (let (c, h) = clone val (heap st) in declare_Ptr name c (st\<lparr>heap := h\<rparr>))"

text \<open>
  The loop of \<^verbatim>\<open>lookup\<close> over the scopes from \<^verbatim>\<open>rbegin()\<close> to \<^verbatim>\<open>rend()\<close>: the first
  scope that has the name decides, by the dynamic type of what it holds.
\<close>

fun lookup_loop :: "('n \<Rightarrow> bool) \<Rightarrow> string \<Rightarrow> (string \<rightharpoonup> addr) list \<Rightarrow> 'n list \<Rightarrow> addr option" where
  "lookup_loop isa_U name [] h = None"
| "lookup_loop isa_U name (it # rest) h =
     (case it name of
        None \<Rightarrow> lookup_loop isa_U name rest h
      | Some it2 \<Rightarrow> if isa_U (h ! it2) then Some it2 else None)"

definition lookup ::
    "('n \<Rightarrow> bool) \<Rightarrow> string \<Rightarrow> location \<Rightarrow> 'n symtab \<Rightarrow> error + (addr \<times> 'n symtab)" where
  "lookup isa_U name l st =
     (case lookup_loop isa_U name (rev (scope st)) (heap st) of
        Some ret \<Rightarrow> (let (c, h) = clone ret (heap st) in Inr (c, st\<lparr>heap := h\<rparr>))
      | None \<Rightarrow> Inl (Error (''unknown symbol: '' @ name) l))"

definition is_global_scope :: "'n symtab \<Rightarrow> bool" where
  "is_global_scope st \<longleftrightarrow> length (scope st) = 1"

text \<open>Every pointer held by the table points into the heap.\<close>

definition valid :: "'n symtab \<Rightarrow> bool" where
  "valid st \<longleftrightarrow> (\<forall>m \<in> set (scope st). \<forall>p \<in> ran m. p < length (heap st))"

text \<open>The scope that decides a lookup of a name: the innermost one that binds it.\<close>

definition binding :: "string \<Rightarrow> 'n symtab \<Rightarrow> addr option" where
  "binding name st = (case filter (\<lambda>m. m name \<noteq> None) (rev (scope st)) of
                        [] \<Rightarrow> None | m # _ \<Rightarrow> m name)"

text \<open>The caller writes through a pointer it holds.\<close>

definition poke :: "addr \<Rightarrow> 'n \<Rightarrow> 'n symtab \<Rightarrow> 'n symtab" where
  "poke p v st = st\<lparr>heap := (heap st)[p := v]\<rparr>"


section \<open>Objects on the heap\<close>

text \<open>
  Modelled from the spec: the node classes whose \<^verbatim>\<open>clone\<close> and \<^verbatim>\<open>operator==\<close> are
  defined in files other than \<^verbatim>\<open>Rule.cc\<close> and \<^verbatim>\<open>Function.cc\<close> (expressions, statements,
  declarations, type expressions, quantifiers), and the numbering pass. An object is
  given by the address it lives at, its \<^verbatim>\<open>Node\<close> part, the plain data of its class
  (which class it is, names, operators, literal values), the objects it owns, in the order of its
  fields, and the addresses of the declarations it refers to without owning them (the
  back-links).
\<close>

datatype 'p obj = Obj addr node 'p "'p obj list" "addr list"

text \<open>
  Modelled from the spec: "assign unique ids (pre-order numbering)". A node takes the
  next number before its children do, the children from left to right; the counter is a
  \<^verbatim>\<open>size_t\<close>.
\<close>

fun number :: "'p obj \<Rightarrow> size_t \<Rightarrow> 'p obj \<times> size_t"
and number_all :: "'p obj list \<Rightarrow> size_t \<Rightarrow> 'p obj list \<times> size_t" where
  "number (Obj a h p cs ls) next =
     (let (cs', n) = number_all cs (next + 1) in (Obj a (h\<lparr>unique_id := next\<rparr>) p cs' ls, n))"
| "number_all [] next = ([], next)"
| "number_all (c # cs) next =
     (let (c', n1) = number c next; (cs', n2) = number_all cs n1 in (c' # cs', n2))"

fun ids :: "'p obj \<Rightarrow> size_t list" where
  "ids (Obj a h p cs ls) = unique_id h # concat (map ids cs)"

fun count :: "'p obj \<Rightarrow> nat" where
  "count (Obj a h p cs ls) = Suc (sum_list (map count cs))"

text \<open>
  Modelled from the spec: "\<^verbatim>\<open>clone()\<close> deep-copies the subtree; back-links are copied by
  value (pointing at the same target declaration)". The copy of an object is allocated
  first, then the copies of what it owns; \<^verbatim>\<open>next\<close> is the first address not yet in use.
\<close>

fun clone_obj :: "'p obj \<Rightarrow> addr \<Rightarrow> 'p obj \<times> addr"
and clone_all :: "'p obj list \<Rightarrow> addr \<Rightarrow> 'p obj list \<times> addr" where
  "clone_obj (Obj a h p cs ls) next =
     (let (cs', n) = clone_all cs (Suc next) in (Obj next h p cs' ls, n))"
| "clone_all [] next = ([], next)"
| "clone_all (c # cs) next =
     (let (c', n1) = clone_obj c next; (cs', n2) = clone_all cs n1 in (c' # cs', n2))"

text \<open>
  Modelled from the spec: "structural equality ignoring location and unique id"; "the
  resolved-function back-link is not compared".
\<close>

fun equals :: "'p obj \<Rightarrow> 'p obj \<Rightarrow> bool"
and vector_eq :: "'p obj list \<Rightarrow> 'p obj list \<Rightarrow> bool" where
  "equals (Obj a h p cs ls) (Obj a' h' p' cs' ls') \<longleftrightarrow> p = p' \<and> vector_eq cs cs'"
| "vector_eq [] [] \<longleftrightarrow> True"
| "vector_eq (c # cs) (c' # cs') \<longleftrightarrow> equals c c' \<and> vector_eq cs cs'"
| "vector_eq _ _ \<longleftrightarrow> False"

fun addresses :: "'p obj \<Rightarrow> addr set" where
  "addresses (Obj a h p cs ls) = insert a (\<Union>c \<in> set cs. addresses c)"

fun back_links :: "'p obj \<Rightarrow> addr list" where
  "back_links (Obj a h p cs ls) = ls @ concat (map back_links cs)"

text \<open>
  A write through a pointer: the object at that address is replaced by whatever the
  writer makes of it; every other object stays.
\<close>

fun store :: "addr \<Rightarrow> ('p obj \<Rightarrow> 'p obj) \<Rightarrow> 'p obj \<Rightarrow> 'p obj" where
  "store x w (Obj a h p cs ls) =
     (if x = a then w (Obj a h p cs ls) else Obj a h p (map (store x w) cs) ls)"

subsection \<open>Copying a simple rule and a function\<close>

text \<open>
  \<^verbatim>\<open>SimpleRule\<close> as an object: its address, the \<^verbatim>\<open>Node\<close> and \<^verbatim>\<open>Rule\<close> parts (name,
  quantifiers, aliases), then guard, decls and body. \<^verbatim>\<open>Function\<close> likewise: name,
  parameters, return type, decls, body.
\<close>

datatype 'p simple_rule_obj =
  SimpleRule_obj addr node string "'p obj list" "'p obj list" "'p obj option" "'p obj list" "'p obj list"

datatype 'p function_obj =
  Function_obj addr node string "'p obj list" "'p obj option" "'p obj list" "'p obj list"

text \<open>\<^verbatim>\<open>other.p == nullptr ? nullptr : other.p->clone()\<close>.\<close>

fun clone_opt :: "'p obj option \<Rightarrow> addr \<Rightarrow> 'p obj option \<times> addr" where
  "clone_opt None next = (None, next)"
| "clone_opt (Some e) next = (let (e', n) = clone_obj e next in (Some e', n))"

text \<open>
  \<^verbatim>\<open>SimpleRule::clone\<close> is \<^verbatim>\<open>new SimpleRule(*this)\<close>. The copy constructor runs
  \<^verbatim>\<open>Rule(other)\<close>, which copies the \<^verbatim>\<open>Node\<close> part, the name and the vector of
  quantifiers and clones each alias; then it clones the guard unless it is null, copies
  the vector of statement pointers, and clones each declaration. Copying a
  \<^verbatim>\<open>Quantifier\<close> and copying a \<^verbatim>\<open>Ptr<Stmt>\<close> run copy constructors that are not among
  the sources; by the ownership rule of the spec (every child has exactly one parent)
  they are deep copies as well.
\<close>

fun SimpleRule_clone :: "'p simple_rule_obj \<Rightarrow> addr \<Rightarrow> 'p simple_rule_obj \<times> addr" where
  "SimpleRule_clone (SimpleRule_obj a h name quants aliases guard decls body) next =
     (let (quants', n1) = clone_all quants (Suc next);
          (aliases', n2) = clone_all aliases n1;
          (guard', n3) = clone_opt guard n2;
          (body', n4) = clone_all body n3;
          (decls', n5) = clone_all decls n4
      in (SimpleRule_obj next h name quants' aliases' guard' decls' body', n5))"

text \<open>
  \<^verbatim>\<open>Function::clone\<close> is \<^verbatim>\<open>new Function(*this)\<close>; the copy constructor copies the
  \<^verbatim>\<open>Node\<close> part and the name, clones the return type unless it is null, and clones
  each parameter, each declaration and each statement of the body.
\<close>

fun Function_clone :: "'p function_obj \<Rightarrow> addr \<Rightarrow> 'p function_obj \<times> addr" where
  "Function_clone (Function_obj a h name parameters return_type decls body) next =
     (let (return_type', n1) = clone_opt return_type (Suc next);
          (parameters', n2) = clone_all parameters n1;
          (decls', n3) = clone_all decls n2;
          (body', n4) = clone_all body n3
      in (Function_obj next h name parameters' return_type' decls' body', n4))"

text \<open>
  The comparison of two pointers that may be null, as \<^verbatim>\<open>SimpleRule::operator==\<close> does
  it for the guard and \<^verbatim>\<open>Function::operator==\<close> for the return type.
\<close>

fun opt_eq :: "'p obj option \<Rightarrow> 'p obj option \<Rightarrow> bool" where
  "opt_eq None None \<longleftrightarrow> True"
| "opt_eq (Some x) (Some y) \<longleftrightarrow> equals x y"
| "opt_eq _ _ \<longleftrightarrow> False"

fun SimpleRule_eq :: "'p simple_rule_obj \<Rightarrow> 'p simple_rule_obj \<Rightarrow> bool" where
  "SimpleRule_eq (SimpleRule_obj a h name quants aliases guard decls body)
                 (SimpleRule_obj a' h' name' quants' aliases' guard' decls' body') \<longleftrightarrow>
     name = name' \<and> vector_eq quants quants' \<and> vector_eq aliases aliases'
     \<and> opt_eq guard guard' \<and> vector_eq decls decls' \<and> vector_eq body body'"

fun Function_eq :: "'p function_obj \<Rightarrow> 'p function_obj \<Rightarrow> bool" where
  "Function_eq (Function_obj a h name parameters return_type decls body)
               (Function_obj a' h' name' parameters' return_type' decls' body') \<longleftrightarrow>
     name = name' \<and> vector_eq parameters parameters' \<and> opt_eq return_type return_type'
     \<and> vector_eq decls decls' \<and> vector_eq body body'"

text \<open>The addresses and back-links of all the objects of a rule or function, and a write.\<close>

fun owned :: "'a option \<Rightarrow> 'a list" where
  "owned None = []"
| "owned (Some x) = [x]"

definition addresses_all :: "'p obj list \<Rightarrow> addr set" where
  "addresses_all cs = (\<Union>c \<in> set cs. addresses c)"

fun SimpleRule_addresses :: "'p simple_rule_obj \<Rightarrow> addr set" where
  "SimpleRule_addresses (SimpleRule_obj a h name quants aliases guard decls body) =
     insert a (addresses_all quants \<union> addresses_all aliases \<union> addresses_all (owned guard)
               \<union> addresses_all decls \<union> addresses_all body)"

fun Function_addresses :: "'p function_obj \<Rightarrow> addr set" where
  "Function_addresses (Function_obj a h name parameters return_type decls body) =
     insert a (addresses_all parameters \<union> addresses_all (owned return_type)
               \<union> addresses_all decls \<union> addresses_all body)"

fun SimpleRule_back_links :: "'p simple_rule_obj \<Rightarrow> addr list" where
  "SimpleRule_back_links (SimpleRule_obj a h name quants aliases guard decls body) =
     concat (map back_links (quants @ aliases @ owned guard @ decls @ body))"

fun Function_back_links :: "'p function_obj \<Rightarrow> addr list" where
  "Function_back_links (Function_obj a h name parameters return_type decls body) =
     concat (map back_links (parameters @ owned return_type @ decls @ body))"

fun SimpleRule_store ::
    "addr \<Rightarrow> ('p obj \<Rightarrow> 'p obj) \<Rightarrow> ('p simple_rule_obj \<Rightarrow> 'p simple_rule_obj) \<Rightarrow> 'p simple_rule_obj
     \<Rightarrow> 'p simple_rule_obj" where
  "SimpleRule_store x w wr (SimpleRule_obj a h name quants aliases guard decls body) =
     (if x = a then wr (SimpleRule_obj a h name quants aliases guard decls body)
      else SimpleRule_obj a h name (map (store x w) quants) (map (store x w) aliases)
             (map_option (store x w) guard) (map (store x w) decls) (map (store x w) body))"

fun Function_store ::
    "addr \<Rightarrow> ('p obj \<Rightarrow> 'p obj) \<Rightarrow> ('p function_obj \<Rightarrow> 'p function_obj) \<Rightarrow> 'p function_obj \<Rightarrow> 'p function_obj" where
  "Function_store x w wr (Function_obj a h name parameters return_type decls body) =
     (if x = a then wr (Function_obj a h name parameters return_type decls body)
      else Function_obj a h name (map (store x w) parameters) (map_option (store x w) return_type)
             (map (store x w) decls) (map (store x w) body))"


section \<open>Example models\<close>

abbreviation l0 :: location where
  "l0 \<equiv> Location ''model.m'' 1 1 1 1"

abbreviation h0 :: node where
  "h0 \<equiv> \<lparr>loc = l0, unique_id = SIZE_MAX\<rparr>"

text \<open>
  An environment for the translator: the operator symbols of integer arithmetic, decimal
  literals, and every expression untyped, which is enough for numbers and names.
\<close>

abbreviation E0 :: smt_env where
  "E0 \<equiv> \<lparr>type_of = (\<lambda>_. None), resolve = (\<lambda>t. t), type_equal = (=),
          logic_add = ''+'', logic_div = ''div'', logic_geq = ''>='', logic_gt = ''>'',
          logic_leq = ''<='', logic_lt = ''<'', logic_mod = ''mod'', logic_mul = ''*'',
          logic_neg = ''-'', logic_sub = ''-'', numeric_literal = (\<lambda>v. if v < 0 then ''(- '' @ to_string (nat (- v)) @ '')''
                                  else to_string (nat v))\<rparr>"

text \<open>\<^verbatim>\<open>i : 1..2\<close> and \<^verbatim>\<open>j : 0..1\<close>.\<close>

abbreviation q_i :: quantifier where
  "q_i \<equiv> Quantifier h0 ''i'' None (Some (Number h0 1)) (Some (Number h0 2)) None"

abbreviation q_j :: quantifier where
  "q_j \<equiv> Quantifier h0 ''j'' None (Some (Number h0 0)) (Some (Number h0 1)) None"

text \<open>\<^verbatim>\<open>return 5\<close>, and a procedure and a function whose body is that statement.\<close>

abbreviation return_5 :: stmt where
  "return_5 \<equiv> Return h0 (Some (Number h0 5))"

abbreviation proc_p :: func where
  "proc_p \<equiv> Function h0 ''p'' [] None [] [return_5]"

abbreviation range_0_9 :: typeexpr where
  "range_0_9 \<equiv> Range_type h0 (Number h0 0) (Number h0 9)"

abbreviation func_f :: func where
  "func_f \<equiv> Function h0 ''f'' [] (Some range_0_9) [] [return_5]"

text \<open>\<^verbatim>\<open>var x : boolean\<close> and \<^verbatim>\<open>const x : 1\<close>, and the test for a variable declaration.\<close>

abbreviation var_x :: decl where
  "var_x \<equiv> VarDecl h0 ''x'' (TypeExprID h0 ''boolean'') False"

abbreviation const_x :: decl where
  "const_x \<equiv> ConstDecl h0 ''x'' (Number h0 1)"

fun isa_VarDecl :: "decl \<Rightarrow> bool" where
  "isa_VarDecl (VarDecl _ _ _ _) = True"
| "isa_VarDecl _ = False"


section \<open>Properties of the SMT translator\<close>

subsection \<open>Mangled names\<close>

lemma foldl_snoc_map: "foldl (\<lambda>s1 c. s1 @ [f c]) acc s = acc @ map f s"
  by (induction s arbitrary: acc) simp_all

lemma lower_map: "lower s = map tolower s"
  by (simp add: lower_def foldl_snoc_map)

lemma to_string_small: "n < 10 \<Longrightarrow> to_string n = [digit n]"
  by (simp add: to_string.simps)

lemma to_string_big: "\<not> n < 10 \<Longrightarrow> to_string n = to_string (n div 10) @ [digit (n mod 10)]"
  by (subst to_string.simps) simp

lemma lt10_cases: "d < 10 \<Longrightarrow> d \<in> {0, 1, 2, 3, 4, 5, 6, 7, 8, 9::nat}"
  by auto

lemma upt10: "[0 ..< 10] = [0, 1, 2, 3, 4, 5, 6, 7, 8, 9::nat]"
  by (simp add: upt_rec)

lemma digit_value_digit: "d < 10 \<Longrightarrow> digit_value (digit d) = d"
  by (drule lt10_cases) (auto simp add: digit_value_def digit_def upt10)

lemma is_digit_digit: "d < 10 \<Longrightarrow> is_digit (digit d)"
  by (drule lt10_cases) (auto simp add: is_digit_def digit_def)

lemma of_decimal_snoc: "of_decimal (ds @ [c]) = 10 * of_decimal ds + digit_value c"
  by (simp add: of_decimal_def)

lemma of_decimal_to_string: "of_decimal (to_string n) = n"
proof (induction n rule: to_string.induct)
  case (1 n)
  show ?case
  proof (cases "n < 10")
    case True
    then show ?thesis
      by (simp add: to_string_small of_decimal_def digit_value_digit)
  next
    case False
    with 1 show ?thesis
      by (simp add: to_string_big of_decimal_snoc digit_value_digit)
  qed
qed

lemma digits_to_string: "list_all is_digit (to_string n)"
proof (induction n rule: to_string.induct)
  case (1 n)
  show ?case
  proof (cases "n < 10")
    case True
    then show ?thesis by (simp add: to_string_small is_digit_digit)
  next
    case False
    with 1 show ?thesis by (simp add: to_string_big is_digit_digit)
  qed
qed

lemma mangle_unfold:
  "mangle s i =
     (if lower s = ''true'' \<or> lower s = ''false'' then lower s
      else if lower s = ''boolean'' then ''Bool''
      else ''s'' @ to_string (unat i))"
  by (simp add: mangle_def Let_def)

text \<open>
  C8, as stated, fails: the comparison with \<^verbatim>\<open>true\<close>, \<^verbatim>\<open>false\<close> and \<^verbatim>\<open>boolean\<close> is made
  on the lower-cased name, so an identifier spelled \<^verbatim>\<open>TRUE\<close>, which is none of the three
  names, is not emitted as \<^verbatim>\<open>s5\<close> but as the literal \<^verbatim>\<open>true\<close>.
\<close>

theorem mangle_case_counterexample:
  "''TRUE'' \<notin> {''true'', ''false'', ''boolean''}
   \<and> mangle ''TRUE'' 5 = ''true''
   \<and> mangle ''TRUE'' 5 \<noteq> ''s'' @ to_string 5
   \<and> translate E0 (ExprID h0 ''TRUE'' (Some (VarDecl \<lparr>loc = l0, unique_id = 5\<rparr> ''TRUE''
         (TypeExprID h0 ''boolean'') False))) = Inr ''true''"
  by (simp add: mangle_unfold lower_map tolower_def translate_def to_string_small digit_def)

text \<open>
  C8, amended: in SMT emission an identifier whose name, compared without regard to
  letter case, is \<^verbatim>\<open>true\<close> or \<^verbatim>\<open>false\<close> is emitted as that lower-case literal, one whose
  name is \<^verbatim>\<open>boolean\<close> without regard to case is emitted as \<^verbatim>\<open>Bool\<close>, and every other
  identifier is emitted as \<^verbatim>\<open>s\<close> followed by the decimal digits of the unique id of its
  resolved declaration (the digits read back as that id).
\<close>

theorem mangle_identifier:
  "(lower s = ''true'' \<or> lower s = ''false'' \<longrightarrow> mangle s i = lower s)
   \<and> (lower s = ''boolean'' \<longrightarrow> mangle s i = ''Bool'')
   \<and> (lower s \<notin> {''true'', ''false'', ''boolean''} \<longrightarrow>
        mangle s i = ''s'' @ to_string (unat i)
        \<and> list_all is_digit (to_string (unat i))
        \<and> of_decimal (to_string (unat i)) = unat i)
   \<and> translate E (ExprID h s (Some d)) = Inr (mangle s (unique_id (decl_node d)))"
  by (simp add: mangle_unfold translate_def digits_to_string of_decimal_to_string)

theorem mangle_identifier_witness:
  "lower ''False'' = ''false'' \<and> mangle ''False'' 3 = ''false''
   \<and> lower ''Boolean'' = ''boolean'' \<and> mangle ''Boolean'' 4 = ''Bool''
   \<and> lower ''x'' \<notin> {''true'', ''false'', ''boolean''} \<and> mangle ''x'' 12 = ''s12''
   \<and> of_decimal ''12'' = 12
   \<and> translate E0 (ExprID h0 ''x'' (Some (VarDecl \<lparr>loc = l0, unique_id = 12\<rparr> ''x''
         (TypeExprID h0 ''boolean'') False))) = Inr ''s12''"
  using mangle_identifier [of "''False''" 3 E0 h0 var_x]
    mangle_identifier [of "''Boolean''" 4 E0 h0 var_x]
    mangle_identifier [of "''x''" 12 E0 h0 "VarDecl \<lparr>loc = l0, unique_id = 12\<rparr> ''x''
         (TypeExprID h0 ''boolean'') False"]
  by (simp add: lower_map tolower_def to_string_small to_string_big digit_def)

subsection \<open>Unsupported expressions\<close>

lemma dispatch_fails:
  "list_ex quantified_or_call (subexprs e) \<Longrightarrow> \<exists>x. dispatch E e buf = Inl x"
  by (induction E e buf rule: dispatch.induct)
     (fastforce split: sum.splits option.splits simp: Let_def)+

lemma dispatch_null:
  "dispatch E e buf = Inl NullDereference \<Longrightarrow> list_ex (dereferences_null E) (subexprs e)"
  by (induction E e buf rule: dispatch.induct)
     (fastforce split: sum.splits option.splits simp: Let_def)+

lemma dispatch_unsupported_node:
  "dispatch E e buf = Inl (Unsupported n) \<Longrightarrow>
     n \<in> set (subexprs e) \<and> (quantified_or_call n \<or> is_IsUndefined n)"
  by (induction E e buf rule: dispatch.induct)
     (fastforce split: sum.splits option.splits simp: Let_def)+

text \<open>
  C7: the translation of an expression that has an \<^verbatim>\<open>Exists\<close>, \<^verbatim>\<open>Forall\<close> or
  \<^verbatim>\<open>FunctionCall\<close> among its subexpressions never produces output; when no null pointer
  is dereferenced on the way (every identifier is resolved, every record expression
  typed) it throws \<^verbatim>\<open>Unsupported\<close>, carrying a subexpression that is a quantified
  expression, a function call or an \<^verbatim>\<open>isundefined\<close> test.
\<close>

theorem translate_unsupported:
  assumes "list_ex quantified_or_call (subexprs e)"
  shows "(\<forall>out. translate E e \<noteq> Inr out)
    \<and> (\<not> list_ex (dereferences_null E) (subexprs e) \<longrightarrow>
         (\<exists>n \<in> set (subexprs e). translate E e = Inl (Unsupported n)
            \<and> (quantified_or_call n \<or> is_IsUndefined n)))"
proof -
  from assms obtain x where x: "dispatch E e '''' = Inl x"
    using dispatch_fails by blast
  have "\<exists>n \<in> set (subexprs e). x = Unsupported n \<and> (quantified_or_call n \<or> is_IsUndefined n)"
    if "\<not> list_ex (dereferences_null E) (subexprs e)"
  proof (cases x)
    case (Unsupported n)
    with x dispatch_unsupported_node [of E e "''''" n] show ?thesis by simp
  next
    case NullDereference
    with x that dispatch_null [of E e "''''"] show ?thesis by simp
  qed
  with x show ?thesis by (auto simp: translate_def)
qed

theorem translate_unsupported_witness:
  "list_ex quantified_or_call
     (subexprs (BinaryExpr h0 And (ExprID h0 ''x'' (Some var_x)) (Exists h0 q_i (ExprID h0 ''x'' (Some var_x)))))
   \<and> \<not> list_ex (dereferences_null E0)
     (subexprs (BinaryExpr h0 And (ExprID h0 ''x'' (Some var_x)) (Exists h0 q_i (ExprID h0 ''x'' (Some var_x)))))
   \<and> translate E0 (BinaryExpr h0 And (ExprID h0 ''x'' (Some var_x)) (Exists h0 q_i (ExprID h0 ''x'' (Some var_x))))
       = Inl (Unsupported (Exists h0 q_i (ExprID h0 ''x'' (Some var_x))))"
  using translate_unsupported [of "BinaryExpr h0 And (ExprID h0 ''x'' (Some var_x))
      (Exists h0 q_i (ExprID h0 ''x'' (Some var_x)))" E0]
  by (simp add: translate_def)


section \<open>Properties of the checks on return statements\<close>

lemma in_order_Inr: "in_order rs = Inr () \<longleftrightarrow> set rs \<subseteq> {Inr ()}"
  by (induction rs rule: in_order.induct) auto

lemma in_order_skip: "set xs \<subseteq> {Inr ()} \<Longrightarrow> in_order (xs @ ys) = in_order ys"
  by (induction xs) auto

lemma if_present_Inr: "if_present r = Inr () \<longleftrightarrow> r = None \<or> r = Some (Inr ())"
  by (cases r) auto

lemma raises_only_Inr [simp]: "raises_only m (Inr u)"
  by (simp add: raises_only_def)

lemma raises_only_in_order:
  "(\<And>r. r \<in> set rs \<Longrightarrow> raises_only m r) \<Longrightarrow> raises_only m (in_order rs)"
  by (induction rs rule: in_order.induct) (auto simp: raises_only_def)

lemma raises_only_if_present:
  "(\<And>x. r = Some x \<Longrightarrow> raises_only m x) \<Longrightarrow> raises_only m (if_present r)"
  by (cases r) auto

lemma raises_only_cases:
  "raises_only m r \<Longrightarrow> r \<noteq> Inr () \<Longrightarrow> \<exists>l. r = Inl (Error m l)"
  by (auto simp: raises_only_def)

subsection \<open>The checker of rules\<close>

lemma ReturnChecker_simps [simp]:
  "visit_Function ReturnChecker = Some (\<lambda>_. Inr ())"
  "visit_FunctionCall ReturnChecker = Some (\<lambda>_. Inr ())"
  "visit_ProcedureCall ReturnChecker = Some (\<lambda>_. Inr ())"
  "visit_Return ReturnChecker = Some (\<lambda>n e.
        if e \<noteq> None
        then Inl (Error ''return statement in rule or startstate returns a value'' (loc n))
        else Inr ())"
  by (simp_all add: ReturnChecker_def)

text \<open>
  Outside statements the checker of rules never throws: a return statement below an
  expression, a type or a declaration can only be inside a called function.
\<close>

lemma ReturnChecker_expr: "visit_expr ReturnChecker e = Inr ()"
  and ReturnChecker_quantifier: "visit_quantifier ReturnChecker q = Inr ()"
  and ReturnChecker_typeexpr: "visit_typeexpr ReturnChecker t = Inr ()"
  and ReturnChecker_decl: "visit_decl ReturnChecker d = Inr ()"
  and ReturnChecker_stmt_msg:
    "raises_only ''return statement in rule or startstate returns a value''
       (visit_stmt ReturnChecker s)"
  and ReturnChecker_ifclause_msg:
    "raises_only ''return statement in rule or startstate returns a value''
       (visit_ifclause ReturnChecker c)"
  and ReturnChecker_switchcase_msg:
    "raises_only ''return statement in rule or startstate returns a value''
       (visit_switchcase ReturnChecker sc)"
  and ReturnChecker_property: "visit_property ReturnChecker p = Inr ()"
  and ReturnChecker_func: "visit_func ReturnChecker f = Inr ()"
  by (induction e and q and t and d and s and c and sc and p and f)
     (auto simp: in_order_Inr if_present_Inr raises_only_def [of _ "Inl _"]
           intro!: raises_only_in_order raises_only_if_present)

lemmas ReturnChecker_pure =
  ReturnChecker_expr ReturnChecker_quantifier ReturnChecker_typeexpr ReturnChecker_decl
  ReturnChecker_property ReturnChecker_func

lemma ReturnChecker_stmt:
  "visit_stmt ReturnChecker s = Inr () \<longleftrightarrow> \<not> list_ex returns_value (stmts_of s)"
  "visit_ifclause ReturnChecker c = Inr () \<longleftrightarrow> \<not> list_ex returns_value (clause_stmts c)"
  "visit_switchcase ReturnChecker sc = Inr () \<longleftrightarrow> \<not> list_ex returns_value (case_stmts sc)"
proof (induction s and c and sc rule: stmts_of_clause_stmts_case_stmts.induct)
  case (10 h e)
  then show ?case by (cases e) auto
qed (auto simp: in_order_Inr if_present_Inr ReturnChecker_pure list_ex_iff)

lemma ReturnChecker_body:
  "in_order (map (visit_stmt ReturnChecker) body) = Inr ()
     \<longleftrightarrow> \<not> list_ex returns_value (body_stmts body)"
  by (auto simp: in_order_Inr body_stmts_def ReturnChecker_stmt list_ex_iff)

lemma ReturnChecker_body_msg:
  "raises_only ''return statement in rule or startstate returns a value''
     (in_order (map (visit_stmt ReturnChecker) body))"
  by (rule raises_only_in_order) (auto simp: ReturnChecker_stmt_msg)

lemma SimpleRule_validate_body:
  "SimpleRule_validate (SimpleRule h n qs as g ds body)
     = in_order (map (visit_stmt ReturnChecker) body)"
proof -
  have "in_order ((map (visit_quantifier ReturnChecker) qs @ map (visit_decl ReturnChecker) as
               @ [if_present (map_option (visit_expr ReturnChecker) g)]
               @ map (visit_decl ReturnChecker) ds) @ map (visit_stmt ReturnChecker) body)
        = in_order (map (visit_stmt ReturnChecker) body)"
    by (rule in_order_skip) (auto simp: ReturnChecker_pure if_present_Inr split: option.splits)
  then show ?thesis
    by (simp add: SimpleRule_validate_def ReturnChecker_check_def)
qed

lemma StartState_validate_body:
  "StartState_validate (StartState h n qs as ds body)
     = in_order (map (visit_stmt ReturnChecker) body)"
proof -
  have "in_order ((map (visit_quantifier ReturnChecker) qs @ map (visit_decl ReturnChecker) as
               @ map (visit_decl ReturnChecker) ds) @ map (visit_stmt ReturnChecker) body)
        = in_order (map (visit_stmt ReturnChecker) body)"
    by (rule in_order_skip) (auto simp: ReturnChecker_pure)
  then show ?thesis
    by (simp add: StartState_validate_def ReturnChecker_check_def)
qed

subsection \<open>The checker of functions\<close>

lemma Function_ReturnChecker_simps [simp]:
  "visit_Function (Function_ReturnChecker M rt) = None"
  "visit_FunctionCall (Function_ReturnChecker M rt) = None"
  "visit_ProcedureCall (Function_ReturnChecker M rt) = None"
  "visit_Return (Function_ReturnChecker M rt) = Some (Function_visit_Return M rt)"
  by (simp_all add: Function_ReturnChecker_def)

lemma procedure_Return_msg:
  "raises_only ''statement returns a value from a procedure'' (Function_visit_Return M None n e)"
  by (simp add: Function_visit_Return_def raises_only_def)

text \<open>
  In a procedure, whatever the traversal reaches, called functions included, the only
  exception there is has the message of the procedure case.
\<close>

lemma procedure_expr_msg:
  fixes M :: "'a ast_methods_scheme"
  shows "raises_only ''statement returns a value from a procedure''
           (visit_expr (Function_ReturnChecker M None) e)"
  and "raises_only ''statement returns a value from a procedure''
           (visit_quantifier (Function_ReturnChecker M None) q)"
  and "raises_only ''statement returns a value from a procedure''
           (visit_typeexpr (Function_ReturnChecker M None) t)"
  and "raises_only ''statement returns a value from a procedure''
           (visit_decl (Function_ReturnChecker M None) d)"
  and procedure_stmt_msg:
      "raises_only ''statement returns a value from a procedure''
           (visit_stmt (Function_ReturnChecker M None) s)"
  and "raises_only ''statement returns a value from a procedure''
           (visit_ifclause (Function_ReturnChecker M None) c)"
  and "raises_only ''statement returns a value from a procedure''
           (visit_switchcase (Function_ReturnChecker M None) sc)"
  and "raises_only ''statement returns a value from a procedure''
           (visit_property (Function_ReturnChecker M None) p)"
  and "raises_only ''statement returns a value from a procedure''
           (visit_func (Function_ReturnChecker M None) f)"
  by (induction e and q and t and d and s and c and sc and p and f)
     (auto simp: procedure_Return_msg intro!: raises_only_in_order raises_only_if_present)

text \<open>A traversal that ends without exception has run the handler on every return statement of the body.\<close>

lemma visit_Return_found:
  fixes V :: visitor
  assumes "visit_Return V = Some g"
  shows "visit_stmt V s = Inr () \<Longrightarrow> Return h x \<in> set (stmts_of s) \<Longrightarrow> g h x = Inr ()"
  and "visit_ifclause V c = Inr () \<Longrightarrow> Return h x \<in> set (clause_stmts c) \<Longrightarrow> g h x = Inr ()"
  and "visit_switchcase V sc = Inr () \<Longrightarrow> Return h x \<in> set (case_stmts sc) \<Longrightarrow> g h x = Inr ()"
  using assms
  by (induction s and c and sc rule: stmts_of_clause_stmts_case_stmts.induct)
     (auto simp: in_order_Inr split: option.splits)

lemma visit_body_found:
  assumes "visit_Return V = Some g" and "in_order (map (visit_stmt V) body) = Inr ()"
    and "Return h x \<in> set (body_stmts body)"
  shows "g h x = Inr ()"
  using assms visit_Return_found(1) [of V g _ h x]
  by (auto simp: in_order_Inr body_stmts_def)

lemma Function_visit_Return_accepts:
  "Function_visit_Return M (Some rt) n e = Inr () \<longleftrightarrow>
     (\<exists>ex. e = Some ex \<and>
        (case type_of M ex of None \<Rightarrow> isa_Range (resolve M rt) | Some t \<Rightarrow> type_equal M t rt))"
  by (auto simp: Function_visit_Return_def split: option.splits)

lemma returns_value_iff: "returns_value s \<longleftrightarrow> (\<exists>h e. s = Return h (Some e))"
  by (cases s rule: returns_value.cases) auto

text \<open>
  C5: (1) a rule or start state whose body has a return statement with an expression
  fails validation, with the message of \<^verbatim>\<open>Rule.cc\<close>; (2) a function with a return type
  validates only if every return statement of its body has an expression that either
  has a type equal to the return type or is a bare number while the return type
  resolves to a range, and (3) the handler accepts a bare number exactly when the
  return type resolves to a range, a typed expression exactly when the types are equal;
  (4) a procedure whose body has a return statement with an expression fails with
  "statement returns a value from a procedure".
\<close>

theorem return_statement_validation:
  fixes M :: "'a ast_methods_scheme"
  shows
  "(list_ex returns_value (body_stmts body) \<longrightarrow>
      (\<exists>l. SimpleRule_validate (SimpleRule h n qs as g ds body)
              = Inl (Error ''return statement in rule or startstate returns a value'' l))
    \<and> (\<exists>l. StartState_validate (StartState h n qs as ds body)
              = Inl (Error ''return statement in rule or startstate returns a value'' l)))
   \<and> (Function_validate M (Function h n ps (Some rt) ds body) = Inr () \<longrightarrow>
        (\<forall>hr x. Return hr x \<in> set (body_stmts body) \<longrightarrow>
           (\<exists>ex. x = Some ex \<and>
              (case type_of M ex of
                 None \<Rightarrow> isa_Range (resolve M rt)
               | Some t \<Rightarrow> type_equal M t rt))))
   \<and> (Function_visit_Return M (Some rt) hr (Some ex) = Inr () \<longleftrightarrow>
        (case type_of M ex of
           None \<Rightarrow> isa_Range (resolve M rt)
         | Some t \<Rightarrow> type_equal M t rt))
   \<and> (list_ex returns_value (body_stmts body) \<longrightarrow>
        (\<exists>l. Function_validate M (Function h n ps None ds body)
                = Inl (Error ''statement returns a value from a procedure'' l)))"
proof (intro conjI impI allI)
  assume r: "list_ex returns_value (body_stmts body)"
  then have "in_order (map (visit_stmt ReturnChecker) body) \<noteq> Inr ()"
    by (simp add: ReturnChecker_body)
  then have "\<exists>l. in_order (map (visit_stmt ReturnChecker) body)
                = Inl (Error ''return statement in rule or startstate returns a value'' l)"
    using ReturnChecker_body_msg [of body] by (rule raises_only_cases [rotated])
  then show "\<exists>l. SimpleRule_validate (SimpleRule h n qs as g ds body)
              = Inl (Error ''return statement in rule or startstate returns a value'' l)"
    and "\<exists>l. StartState_validate (StartState h n qs as ds body)
              = Inl (Error ''return statement in rule or startstate returns a value'' l)"
    by (simp_all add: SimpleRule_validate_body StartState_validate_body)
  from r obtain hr e where ret: "Return hr (Some e) \<in> set (body_stmts body)"
    by (auto simp: list_ex_iff returns_value_iff)
  have "in_order (map (visit_stmt (Function_ReturnChecker M None)) body) \<noteq> Inr ()"
  proof
    assume "in_order (map (visit_stmt (Function_ReturnChecker M None)) body) = Inr ()"
    from visit_body_found [OF _ this ret, of "Function_visit_Return M None"]
    show False by (simp add: Function_visit_Return_def)
  qed
  moreover have "raises_only ''statement returns a value from a procedure''
      (in_order (map (visit_stmt (Function_ReturnChecker M None)) body))"
    by (rule raises_only_in_order) (auto simp: procedure_stmt_msg)
  ultimately show "\<exists>l. Function_validate M (Function h n ps None ds body)
                = Inl (Error ''statement returns a value from a procedure'' l)"
    by (simp add: raises_only_cases)
next
  fix hr x
  assume "Function_validate M (Function h n ps (Some rt) ds body) = Inr ()"
    and "Return hr x \<in> set (body_stmts body)"
  then have "Function_visit_Return M (Some rt) hr x = Inr ()"
    using visit_body_found [of "Function_ReturnChecker M (Some rt)"
        "Function_visit_Return M (Some rt)" body hr x]
    by simp
  then show "\<exists>ex. x = Some ex \<and>
      (case type_of M ex of None \<Rightarrow> isa_Range (resolve M rt) | Some t \<Rightarrow> type_equal M t rt)"
    by (simp add: Function_visit_Return_accepts)
next
  show "Function_visit_Return M (Some rt) hr (Some ex) = Inr () \<longleftrightarrow>
        (case type_of M ex of None \<Rightarrow> isa_Range (resolve M rt) | Some t \<Rightarrow> type_equal M t rt)"
    by (simp add: Function_visit_Return_accepts)
qed


theorem return_statement_validation_witness:
  "list_ex returns_value (body_stmts [return_5])
   \<and> SimpleRule_validate (SimpleRule h0 ''r'' [] [] None [] [return_5])
       = Inl (Error ''return statement in rule or startstate returns a value'' l0)
   \<and> StartState_validate (StartState h0 ''r'' [] [] [] [return_5])
       = Inl (Error ''return statement in rule or startstate returns a value'' l0)
   \<and> Function_validate E0 func_f = Inr ()
   \<and> Return h0 (Some (Number h0 5)) \<in> set (body_stmts [return_5])
   \<and> type_of E0 (Number h0 5) = None \<and> isa_Range (resolve E0 range_0_9)
   \<and> Function_visit_Return E0 (Some range_0_9) h0 (Some (Number h0 5)) = Inr ()
   \<and> Function_validate E0 proc_p
       = Inl (Error ''statement returns a value from a procedure'' l0)"
  using return_statement_validation [where body = "[return_5]" and h = h0 and n = "''r''"
      and qs = "[]" and as = "[]" and g = None and ds = "[]" and M = E0 and ps = "[]"
      and rt = range_0_9 and hr = h0 and ex = "Number h0 5"]
  by (simp add: body_stmts_def SimpleRule_validate_def StartState_validate_def
      ReturnChecker_check_def Function_ReturnChecker_def Function_visit_Return_def)

text \<open>
  C10: the checker run by \<^verbatim>\<open>SimpleRule::validate\<close> and \<^verbatim>\<open>StartState::validate\<close> returns
  at once, without exception, from every \<^verbatim>\<open>Function\<close>, \<^verbatim>\<open>FunctionCall\<close> and
  \<^verbatim>\<open>ProcedureCall\<close> node, whatever is below it; so a rule or start state in whose body
  the return statements with an expression, if any, are all below such nodes validates.
\<close>

theorem return_check_skips_calls:
  "visit_func ReturnChecker f = Inr ()
   \<and> visit_expr ReturnChecker (FunctionCall h1 n1 callee args) = Inr ()
   \<and> visit_stmt ReturnChecker (ProcedureCall h2 n2 callee args) = Inr ()
   \<and> (\<not> list_ex returns_value (body_stmts body) \<longrightarrow>
        SimpleRule_validate (SimpleRule h n qs as g ds body) = Inr ()
        \<and> StartState_validate (StartState h n qs as ds body) = Inr ())"
  by (simp add: ReturnChecker_func SimpleRule_validate_body StartState_validate_body
      ReturnChecker_body)

theorem return_check_skips_calls_witness:
  "list_ex returns_value (body_stmts [return_5])
   \<and> \<not> list_ex returns_value (body_stmts [ProcedureCall h0 ''p'' (Some proc_p) [] ])
   \<and> SimpleRule_validate
         (SimpleRule h0 ''r'' [] [] (Some (FunctionCall h0 ''f'' (Some func_f) [])) []
            [ProcedureCall h0 ''p'' (Some proc_p) [] ]) = Inr ()
   \<and> StartState_validate
         (StartState h0 ''r'' [] [] [] [ProcedureCall h0 ''p'' (Some proc_p) [] ]) = Inr ()"
  using return_check_skips_calls [where body = "[ProcedureCall h0 ''p'' (Some proc_p) [] ]"
      and h = h0 and n = "''r''" and qs = "[]" and as = "[]" and ds = "[]"
      and g = "Some (FunctionCall h0 ''f'' (Some func_f) [])"]
  by (simp add: body_stmts_def)


section \<open>Properties of flattening\<close>

lemma quantifiers_insert_quantifier: "quantifiers (insert_quantifier f q) = q # quantifiers f"
  by (cases f) simp_all

lemma quantifiers_foldl_insert:
  "quantifiers (foldl insert_quantifier f qs) = rev qs @ quantifiers f"
  by (induction qs arbitrary: f) (simp_all add: quantifiers_insert_quantifier)

text \<open>
  What \<^verbatim>\<open>Ruleset::flatten\<close> does to the quantifiers: each produced rule has the
  quantifiers of the rule set in reverse order, then those of the rule it comes from.
\<close>

lemma flatten_Ruleset_quantifiers:
  assumes "f' \<in> set (flatten (Ruleset h n qs as rules))"
  shows "\<exists>r \<in> set rules. \<exists>f \<in> set (flatten r). quantifiers f' = rev qs @ quantifiers f"
proof -
  from assms obtain r f where "r \<in> set rules" "f \<in> set (flatten r)"
    "f' = foldl insert_quantifier f qs"
    by auto
  then show ?thesis
    using quantifiers_foldl_insert [of f qs] by blast
qed

text \<open>
  The nested example of the specification, one quantifier on each rule set, does come
  out with the outer quantifier first.
\<close>

lemma flatten_nested_example:
  "flatten (Ruleset h0 [] [q_i] []
              [Ruleset h0 [] [q_j] [] [SimpleRule h0 ''r'' [] [] None [] [] ]])
   = [SimpleRule h0 ''r'' [q_i, q_j] [] None [] [] ]"
  by simp

text \<open>
  C1 fails on the code, and the code departs there from what it sets out to do. A rule
  set with the two quantifiers \<^verbatim>\<open>i : 1..2\<close> and \<^verbatim>\<open>j : 0..1\<close>, in this order, around the
  rule \<^verbatim>\<open>r\<close> flattens to a rule whose quantifier list is \<^verbatim>\<open>[j, i]\<close>: the loop inserts
  each quantifier at the front, so the last one ends up first.
\<close>

theorem flatten_two_quantifiers:
  "flatten (Ruleset h0 [] [q_i, q_j] [] [SimpleRule h0 ''r'' [] [] None [] [] ])
   = [SimpleRule h0 ''r'' [q_j, q_i] [] None [] [] ]"
  by simp


section \<open>Properties of the symbol table\<close>

lemma lookup_loop_decides:
  "\<forall>i \<in> set inner. i name = None \<Longrightarrow> m name = Some p \<Longrightarrow>
   lookup_loop isa_U name (inner @ m # outer) h = (if isa_U (h ! p) then Some p else None)"
  by (induction inner) auto

lemma lookup_loop_unbound:
  "\<forall>m \<in> set scopes. m name = None \<Longrightarrow> lookup_loop isa_U name scopes h = None"
  by (induction scopes) auto

lemma lookup_loop_filter:
  "lookup_loop isa_U name ms h =
     (case (case filter (\<lambda>m. m name \<noteq> None) ms of [] \<Rightarrow> None | m # _ \<Rightarrow> m name) of
        None \<Rightarrow> None
      | Some p \<Rightarrow> if isa_U (h ! p) then Some p else None)"
  by (induction ms) (auto split: option.splits)

lemma lookup_loop_binding:
  "lookup_loop isa_U name (rev (scope st)) (heap st) =
     (case binding name st of
        None \<Rightarrow> None
      | Some p \<Rightarrow> if isa_U (heap st ! p) then Some p else None)"
  by (simp add: binding_def lookup_loop_filter)

lemma lookup_binding:
  "lookup isa_U name l st =
     (case binding name st of
        None \<Rightarrow> Inl (Error (''unknown symbol: '' @ name) l)
      | Some p \<Rightarrow>
          if isa_U (heap st ! p)
          then Inr (length (heap st), st\<lparr>heap := heap st @ [heap st ! p]\<rparr>)
          else Inl (Error (''unknown symbol: '' @ name) l))"
  by (simp add: lookup_def lookup_loop_binding clone_def new_def split: option.splits)

lemma binding_in_table:
  "binding name st = Some p \<Longrightarrow> \<exists>m \<in> set (scope st). p \<in> ran m"
proof -
  assume b: "binding name st = Some p"
  then obtain m ms where f: "filter (\<lambda>m. m name \<noteq> None) (rev (scope st)) = m # ms"
    and m: "m name = Some p"
    by (auto simp: binding_def split: list.splits)
  from f have "m \<in> set (filter (\<lambda>m. m name \<noteq> None) (rev (scope st)))" by simp
  then have "m \<in> set (scope st)" by simp
  with m show ?thesis by (auto simp: ran_def)
qed

lemma binding_valid: "valid st \<Longrightarrow> binding name st = Some p \<Longrightarrow> p < length (heap st)"
  using binding_in_table [of name st p] by (auto simp: valid_def)

lemma binding_heap_update [simp]: "binding name (st\<lparr>heap := h\<rparr>) = binding name st"
  by (simp add: binding_def)

lemma binding_declared:
  "binding name \<lparr>scope = ms @ [m(name \<mapsto> p)], heap = h\<rparr> = Some p"
  by (simp add: binding_def)

text \<open>
  C6: the innermost scope that binds the name decides the lookup. If what it holds has
  the expected kind, the lookup returns (a pointer to a fresh copy of) it; if not, the
  lookup throws "unknown symbol", whatever the scopes further out hold; and it throws
  "unknown symbol" when no scope binds the name.
\<close>

theorem lookup_innermost_decides:
  "(scope st = outer @ [m] @ inner \<and> (\<forall>i \<in> set inner. i name = None) \<and> m name = Some p \<longrightarrow>
      lookup isa_U name l st =
        (if isa_U (heap st ! p)
         then Inr (length (heap st), st\<lparr>heap := heap st @ [heap st ! p]\<rparr>)
         else Inl (Error (''unknown symbol: '' @ name) l)))
   \<and> ((\<forall>m \<in> set (scope st). m name = None) \<longrightarrow>
        lookup isa_U name l st = Inl (Error (''unknown symbol: '' @ name) l))"
proof (intro conjI impI)
  assume a: "scope st = outer @ [m] @ inner \<and> (\<forall>i \<in> set inner. i name = None) \<and> m name = Some p"
  then have "rev (scope st) = rev inner @ m # rev outer" by simp
  with a have "lookup_loop isa_U name (rev (scope st)) (heap st)
      = (if isa_U (heap st ! p) then Some p else None)"
    using lookup_loop_decides [of "rev inner" name m p isa_U "rev outer" "heap st"] by simp
  then show "lookup isa_U name l st =
        (if isa_U (heap st ! p)
         then Inr (length (heap st), st\<lparr>heap := heap st @ [heap st ! p]\<rparr>)
         else Inl (Error (''unknown symbol: '' @ name) l))"
    by (simp add: lookup_def clone_def new_def)
next
  assume "\<forall>m \<in> set (scope st). m name = None"
  then show "lookup isa_U name l st = Inl (Error (''unknown symbol: '' @ name) l)"
    using lookup_loop_unbound [of "rev (scope st)" name isa_U "heap st"]
    by (simp add: lookup_def)
qed

theorem lookup_innermost_decides_witness:
  "lookup isa_VarDecl ''x'' l0 \<lparr>scope = [ [''x'' \<mapsto> 0], Map.empty], heap = [var_x, const_x]\<rparr>
     = Inr (2, \<lparr>scope = [ [''x'' \<mapsto> 0], Map.empty], heap = [var_x, const_x, var_x]\<rparr>)
   \<and> lookup isa_VarDecl ''x'' l0 \<lparr>scope = [ [''x'' \<mapsto> 0], [''x'' \<mapsto> 1] ], heap = [var_x, const_x]\<rparr>
     = Inl (Error ''unknown symbol: x'' l0)
   \<and> lookup isa_VarDecl ''y'' l0 \<lparr>scope = [ [''x'' \<mapsto> 0], [''x'' \<mapsto> 1] ], heap = [var_x, const_x]\<rparr>
     = Inl (Error ''unknown symbol: y'' l0)"
  using lookup_innermost_decides [where st = "\<lparr>scope = [ [''x'' \<mapsto> 0], Map.empty], heap = [var_x, const_x]\<rparr>"
      and outer = "[]" and m = "[''x'' \<mapsto> 0]" and inner = "[Map.empty]" and name = "''x''"
      and p = 0 and isa_U = isa_VarDecl and l = l0]
    lookup_innermost_decides [where st = "\<lparr>scope = [ [''x'' \<mapsto> 0], [''x'' \<mapsto> 1] ], heap = [var_x, const_x]\<rparr>"
      and outer = "[ [''x'' \<mapsto> 0] ]" and m = "[''x'' \<mapsto> 1]" and inner = "[]" and name = "''x''"
      and p = 1 and isa_U = isa_VarDecl and l = l0]
    lookup_innermost_decides [where st = "\<lparr>scope = [ [''x'' \<mapsto> 0], [''x'' \<mapsto> 1] ], heap = [var_x, const_x]\<rparr>"
      and name = "''y''" and isa_U = isa_VarDecl and l = l0]
  by (simp add: numeral_2_eq_2)

text \<open>
  C2, as stated, fails: \<^verbatim>\<open>declare\<close> has no check for a name that the topmost scope
  already binds. Declaring \<^verbatim>\<open>const x\<close> in a scope that holds \<^verbatim>\<open>var x\<close> returns normally,
  and the scope then binds \<^verbatim>\<open>x\<close> to the constant.
\<close>

theorem declare_duplicate_counterexample:
  "last (scope \<lparr>scope = [ [''x'' \<mapsto> 0] ], heap = [var_x, const_x]\<rparr>) ''x'' = Some 0
   \<and> declare_shared_ptr ''x'' 1 \<lparr>scope = [ [''x'' \<mapsto> 0] ], heap = [var_x, const_x]\<rparr>
       = Inr \<lparr>scope = [ [''x'' \<mapsto> 2] ], heap = [var_x, const_x, const_x]\<rparr>
   \<and> declare_Ptr ''x'' 1 \<lparr>scope = [ [''x'' \<mapsto> 0] ], heap = [var_x, const_x]\<rparr>
       = Inr \<lparr>scope = [ [''x'' \<mapsto> 1] ], heap = [var_x, const_x]\<rparr>"
  by (simp add: declare_shared_ptr_def declare_Ptr_def clone_def new_def numeral_2_eq_2)

text \<open>
  C2, amended: on a table with an open scope \<^verbatim>\<open>declare(name, decl)\<close> never fails; it binds
  the name in the topmost scope to the declaration (the overload taking a shared
  pointer: to a fresh copy of it), replacing the binding the name had there, if any, and
  leaving the other names and scopes as they were. A lookup of the name afterwards is
  decided by this declaration alone, whatever the outer scopes bind the name to.
\<close>

theorem declare_binds_topmost:
  "scope st \<noteq> [] \<longrightarrow>
     declare_Ptr name p st
       = Inr (st\<lparr>scope := butlast (scope st) @ [(last (scope st))(name \<mapsto> p)]\<rparr>)
     \<and> declare_shared_ptr name p st
       = Inr \<lparr>scope = butlast (scope st) @ [(last (scope st))(name \<mapsto> length (heap st))],
              heap = heap st @ [heap st ! p]\<rparr>
     \<and> (\<forall>st'. declare_shared_ptr name p st = Inr st' \<longrightarrow>
           binding name st' = Some (length (heap st))
           \<and> lookup isa_U name l st' =
               (if isa_U (heap st ! p)
                then Inr (Suc (length (heap st)), st'\<lparr>heap := heap st' @ [heap st ! p]\<rparr>)
                else Inl (Error (''unknown symbol: '' @ name) l)))"
proof (intro impI conjI allI)
  assume ne: "scope st \<noteq> []"
  then show "declare_Ptr name p st
       = Inr (st\<lparr>scope := butlast (scope st) @ [(last (scope st))(name \<mapsto> p)]\<rparr>)"
    by (simp add: declare_Ptr_def)
  from ne show r: "declare_shared_ptr name p st
       = Inr \<lparr>scope = butlast (scope st) @ [(last (scope st))(name \<mapsto> length (heap st))],
              heap = heap st @ [heap st ! p]\<rparr>"
    by (cases st) (simp add: declare_shared_ptr_def declare_Ptr_def clone_def new_def)
  fix st' assume "declare_shared_ptr name p st = Inr st'"
  with r have st': "st' = \<lparr>scope = butlast (scope st) @ [(last (scope st))(name \<mapsto> length (heap st))],
              heap = heap st @ [heap st ! p]\<rparr>" by simp
  then show b: "binding name st' = Some (length (heap st))"
    by (simp add: binding_declared)
  show "lookup isa_U name l st' =
               (if isa_U (heap st ! p)
                then Inr (Suc (length (heap st)), st'\<lparr>heap := heap st' @ [heap st ! p]\<rparr>)
                else Inl (Error (''unknown symbol: '' @ name) l))"
    by (simp add: lookup_binding b) (simp add: st')
qed

theorem declare_binds_topmost_witness:
  "scope \<lparr>scope = [ [''x'' \<mapsto> 0], [''x'' \<mapsto> 0] ], heap = [const_x, var_x]\<rparr> \<noteq> []
   \<and> declare_shared_ptr ''x'' 1 \<lparr>scope = [ [''x'' \<mapsto> 0], [''x'' \<mapsto> 0] ], heap = [const_x, var_x]\<rparr>
       = Inr \<lparr>scope = [ [''x'' \<mapsto> 0], [''x'' \<mapsto> 2] ], heap = [const_x, var_x, var_x]\<rparr>
   \<and> lookup isa_VarDecl ''x'' l0
         \<lparr>scope = [ [''x'' \<mapsto> 0], [''x'' \<mapsto> 2] ], heap = [const_x, var_x, var_x]\<rparr>
       = Inr (3, \<lparr>scope = [ [''x'' \<mapsto> 0], [''x'' \<mapsto> 2] ],
                  heap = [const_x, var_x, var_x, var_x]\<rparr>)"
  using declare_binds_topmost [where st = "\<lparr>scope = [ [''x'' \<mapsto> 0], [''x'' \<mapsto> 0] ], heap = [const_x, var_x]\<rparr>"
      and name = "''x''" and p = 1 and isa_U = isa_VarDecl and l = l0]
  by (simp add: numeral_2_eq_2 numeral_3_eq_3)

text \<open>
  C9: \<^verbatim>\<open>lookup\<close> returns a pointer to a fresh copy on every call. Two lookups of a name
  give two different pointers, to equal nodes, neither of them held by the table; a
  write through the first leaves every node the table holds, and the node the next lookup
  returns, as they were. The overload of \<^verbatim>\<open>declare\<close> that takes a shared pointer stores
  a fresh copy: a later write through the argument does not reach the table.
\<close>

theorem lookup_hands_out_clones:
  assumes "valid st" and "binding name st = Some p" and "isa_U (heap st ! p)"
  shows "\<exists>a1 st1 a2 st2.
      lookup isa_U name l st = Inr (a1, st1) \<and> lookup isa_U name l st1 = Inr (a2, st2)
      \<and> a1 \<noteq> a2 \<and> heap st2 ! a1 = heap st ! p \<and> heap st2 ! a2 = heap st ! p
      \<and> scope st2 = scope st
      \<and> (\<forall>m \<in> set (scope st2). a1 \<notin> ran m \<and> a2 \<notin> ran m)
      \<and> (\<forall>v. scope (poke a1 v st2) = scope st
             \<and> (\<forall>m \<in> set (scope st). \<forall>q \<in> ran m. heap (poke a1 v st2) ! q = heap st ! q)
             \<and> (\<exists>a3 st3. lookup isa_U name l (poke a1 v st2) = Inr (a3, st3)
                    \<and> heap st3 ! a3 = heap st ! p))
      \<and> (scope st \<noteq> [] \<and> q < length (heap st) \<longrightarrow>
           (\<exists>st'. declare_shared_ptr name' q st = Inr st'
              \<and> binding name' st' = Some (length (heap st)) \<and> length (heap st) \<noteq> q
              \<and> heap st' ! length (heap st) = heap st ! q
              \<and> (\<forall>v. heap (poke q v st') ! length (heap st) = heap st ! q)))"
proof -
  let ?n = "length (heap st)"
  let ?c = "heap st ! p"
  let ?st1 = "st\<lparr>heap := heap st @ [?c]\<rparr>"
  let ?st2 = "st\<lparr>heap := heap st @ [?c, ?c]\<rparr>"
  have p: "p < ?n" using assms(1,2) by (rule binding_valid)
  have table: "q < ?n" if "m \<in> set (scope st)" "q \<in> ran m" for m q
    using assms(1) that by (auto simp: valid_def)
  have 1: "lookup isa_U name l st = Inr (?n, ?st1)"
    using assms by (simp add: lookup_binding)
  have 2: "lookup isa_U name l ?st1 = Inr (Suc ?n, ?st2)"
    using assms p by (simp add: lookup_binding nth_append)
  have 3: "lookup isa_U name l (poke ?n v ?st2)
      = Inr (Suc (Suc ?n), poke ?n v ?st2\<lparr>heap := heap (poke ?n v ?st2) @ [?c]\<rparr>)" for v
    using assms p by (simp add: lookup_binding poke_def binding_def nth_append list_update_append)
  have 4: "heap (poke ?n v ?st2) ! q = heap st ! q" if "q < ?n" for v q
    using that by (simp add: poke_def nth_append list_update_append)
  have 5: "\<exists>st'. declare_shared_ptr name' q st = Inr st'
              \<and> binding name' st' = Some ?n \<and> ?n \<noteq> q
              \<and> heap st' ! ?n = heap st ! q
              \<and> (\<forall>v. heap (poke q v st') ! ?n = heap st ! q)"
    if "scope st \<noteq> []" "q < ?n"
  proof -
    from that(1) have "declare_shared_ptr name' q st
       = Inr \<lparr>scope = butlast (scope st) @ [(last (scope st))(name' \<mapsto> ?n)],
              heap = heap st @ [heap st ! q]\<rparr>"
      by (cases st) (simp add: declare_shared_ptr_def declare_Ptr_def clone_def new_def)
    with that(2) show ?thesis
      by (simp add: binding_declared poke_def nth_append list_update_append)
  qed
  show ?thesis
  proof (intro exI conjI)
    show "lookup isa_U name l st = Inr (?n, ?st1)" by (rule 1)
    show "lookup isa_U name l ?st1 = Inr (Suc ?n, ?st2)" by (rule 2)
    show "?n \<noteq> Suc ?n" by simp
    show "heap ?st2 ! ?n = ?c" by (simp add: nth_append)
    show "heap ?st2 ! Suc ?n = ?c" by (simp add: nth_append)
    show "scope ?st2 = scope st" by simp
    show "\<forall>m \<in> set (scope ?st2). ?n \<notin> ran m \<and> Suc ?n \<notin> ran m"
      using table by fastforce
    show "\<forall>v. scope (poke ?n v ?st2) = scope st
             \<and> (\<forall>m \<in> set (scope st). \<forall>q \<in> ran m. heap (poke ?n v ?st2) ! q = heap st ! q)
             \<and> (\<exists>a3 st3. lookup isa_U name l (poke ?n v ?st2) = Inr (a3, st3)
                    \<and> heap st3 ! a3 = heap st ! p)"
    proof (intro allI conjI)
      fix v
      show "scope (poke ?n v ?st2) = scope st" by (simp add: poke_def)
      show "\<forall>m \<in> set (scope st). \<forall>q \<in> ran m. heap (poke ?n v ?st2) ! q = heap st ! q"
        using table 4 by blast
      show "\<exists>a3 st3. lookup isa_U name l (poke ?n v ?st2) = Inr (a3, st3)
                    \<and> heap st3 ! a3 = heap st ! p"
        using 3 [of v] by (simp add: poke_def nth_append)
    qed
    show "scope st \<noteq> [] \<and> q < length (heap st) \<longrightarrow>
           (\<exists>st'. declare_shared_ptr name' q st = Inr st'
              \<and> binding name' st' = Some (length (heap st)) \<and> length (heap st) \<noteq> q
              \<and> heap st' ! length (heap st) = heap st ! q
              \<and> (\<forall>v. heap (poke q v st') ! length (heap st) = heap st ! q))"
      using 5 by blast
  qed
qed

theorem lookup_hands_out_clones_witness:
  "valid \<lparr>scope = [ [''x'' \<mapsto> 0] ], heap = [var_x]\<rparr>
   \<and> binding ''x'' \<lparr>scope = [ [''x'' \<mapsto> 0] ], heap = [var_x]\<rparr> = Some 0
   \<and> isa_VarDecl ([var_x] ! 0)
   \<and> lookup isa_VarDecl ''x'' l0 \<lparr>scope = [ [''x'' \<mapsto> 0] ], heap = [var_x]\<rparr>
       = Inr (1, \<lparr>scope = [ [''x'' \<mapsto> 0] ], heap = [var_x, var_x]\<rparr>)
   \<and> lookup isa_VarDecl ''x'' l0 \<lparr>scope = [ [''x'' \<mapsto> 0] ], heap = [var_x, var_x]\<rparr>
       = Inr (2, \<lparr>scope = [ [''x'' \<mapsto> 0] ], heap = [var_x, var_x, var_x]\<rparr>)
   \<and> lookup isa_VarDecl ''x'' l0
         (poke 1 const_x \<lparr>scope = [ [''x'' \<mapsto> 0] ], heap = [var_x, var_x, var_x]\<rparr>)
       = Inr (3, \<lparr>scope = [ [''x'' \<mapsto> 0] ], heap = [var_x, const_x, var_x, var_x]\<rparr>)
   \<and> (\<exists>a1 st1 a2 st2.
        lookup isa_VarDecl ''x'' l0 \<lparr>scope = [ [''x'' \<mapsto> 0] ], heap = [var_x]\<rparr> = Inr (a1, st1)
        \<and> lookup isa_VarDecl ''x'' l0 st1 = Inr (a2, st2) \<and> a1 \<noteq> a2)"
  using lookup_hands_out_clones [where st = "\<lparr>scope = [ [''x'' \<mapsto> 0] ], heap = [var_x]\<rparr>"
      and name = "''x''" and p = 0 and isa_U = isa_VarDecl and l = l0 and q = 0 and name' = "''y''"]
  by (simp add: valid_def binding_def lookup_binding poke_def numeral_2_eq_2 numeral_3_eq_3)


section \<open>Properties of unique ids\<close>

lemma upt_offset: "[a ..< a + b] = map (\<lambda>i. a + i) [0 ..< b]"
  by (induction b) simp_all

lemma ids_range_split:
  "map (\<lambda>i. (s::'a::len word) + of_nat i) [0 ..< a + b]
   = map (\<lambda>i. s + of_nat i) [0 ..< a] @ map (\<lambda>i. (s + of_nat a) + of_nat i) [0 ..< b]"
proof -
  have "[0 ..< a + b] = [0 ..< a] @ [a ..< a + b]"
    by (rule upt_add_eq_append) simp
  also have "\<dots> = [0 ..< a] @ map (\<lambda>i. a + i) [0 ..< b]"
    by (simp only: upt_offset)
  finally show ?thesis by (simp add: o_def add.assoc)
qed

lemma ids_range_Suc:
  "map (\<lambda>i. (s::'a::len word) + of_nat i) [0 ..< Suc b] = s # map (\<lambda>i. (s + 1) + of_nat i) [0 ..< b]"
  using ids_range_split [of s 1 b] by simp

lemma number_ids:
  fixes t :: "'p obj" and ts :: "'p obj list"
  shows "ids (fst (number t s)) = map (\<lambda>i. s + of_nat i) [0 ..< count t]
         \<and> snd (number t s) = s + of_nat (count t)"
  and "concat (map ids (fst (number_all ts s))) = map (\<lambda>i. s + of_nat i) [0 ..< sum_list (map count ts)]
         \<and> snd (number_all ts s) = s + of_nat (sum_list (map count ts))"
proof (induction t s and ts s rule: number_number_all.induct)
  case (1 a h p cs ls s)
  obtain cs' n where cs: "number_all cs (s + 1) = (cs', n)" by (cases "number_all cs (s + 1)")
  with 1 have IH: "concat (map ids cs') = map (\<lambda>i. (s + 1) + of_nat i) [0 ..< sum_list (map count cs)]"
    "n = (s + 1) + of_nat (sum_list (map count cs))" by auto
  from IH show ?case by (simp add: cs ids_range_Suc del: upt_Suc)
next
  case (2 s)
  then show ?case by simp
next
  case (3 c cs s)
  obtain c' n1 where c: "number c s = (c', n1)" by (cases "number c s")
  obtain cs' n2 where cs: "number_all cs n1 = (cs', n2)" by (cases "number_all cs n1")
  from 3(1) c have 1: "ids c' = map (\<lambda>i. s + of_nat i) [0 ..< count c]" "n1 = s + of_nat (count c)"
    by auto
  from 3(2) [OF c [symmetric] refl] cs
  have 2: "concat (map ids cs') = map (\<lambda>i. n1 + of_nat i) [0 ..< sum_list (map count cs)]"
    "n2 = n1 + of_nat (sum_list (map count cs))" by auto
  have "number_all (c # cs) s = (c' # cs', n2)" by (simp add: c cs)
  with 1 2 show ?case
    by (simp add: ids_range_split)
qed

lemma distinct_consecutive_word:
  fixes s :: "'a::len word"
  assumes "m \<le> 2 ^ LENGTH('a)"
  shows "distinct (map (\<lambda>i. s + of_nat i) [0 ..< m])"
proof -
  have "inj_on (\<lambda>i. s + (of_nat i :: 'a word)) (set [0 ..< m])"
  proof (rule inj_onI)
    fix i j assume ij: "i \<in> set [0 ..< m]" "j \<in> set [0 ..< m]" "s + (of_nat i :: 'a word) = s + of_nat j"
    then have "(of_nat i :: 'a word) = of_nat j" by simp
    then have "take_bit LENGTH('a) i = take_bit LENGTH('a) j" by (simp add: word_of_nat_eq_iff)
    moreover from ij assms have "i < 2 ^ LENGTH('a)" "j < 2 ^ LENGTH('a)" by auto
    ultimately show "i = j" by (simp add: take_bit_nat_eq_self)
  qed
  then show ?thesis by (simp add: distinct_map)
qed

lemma no_max_word:
  fixes s :: "'a::len word"
  assumes "unat s + m < 2 ^ LENGTH('a)"
  shows "- 1 \<notin> set (map (\<lambda>i. s + of_nat i) [0 ..< m])"
proof
  assume "- 1 \<in> set (map (\<lambda>i. s + of_nat i) [0 ..< m])"
  then obtain i where i: "i < m" "s + of_nat i = (- 1 :: 'a word)" by auto
  from i(1) assms have small: "unat s + i < 2 ^ LENGTH('a)" by simp
  then have "unat (of_nat i :: 'a word) = i" by (simp add: unat_of_nat)
  with small have "unat (s + of_nat i) = unat s + i"
    by (simp add: unat_add_lem [THEN iffD1])
  moreover have "unat (- 1 :: 'a word) = 2 ^ LENGTH('a) - 1"
    by (simp add: unsigned_minus_1_eq_mask mask_eq_exp_minus_1)
  ultimately have "unat s + i = 2 ^ LENGTH('a) - 1" using i(2) by simp
  with assms i(1) show False by simp
qed

text \<open>
  C3, as stated, fails on its first half: a node is constructed with the unique id
  \<^verbatim>\<open>SIZE_MAX\<close>, not 0.
\<close>

theorem fresh_unique_id_counterexample:
  "unique_id (Node l0) = SIZE_MAX \<and> unique_id (Node l0) \<noteq> 0"
  by (simp add: Node_def SIZE_MAX_def)

text \<open>
  C3, amended: the unique id of a node is \<^verbatim>\<open>SIZE_MAX\<close> from construction until the
  numbering pass assigns it; after the numbering pass, started at \<^verbatim>\<open>s\<close> on a tree of
  fewer than \<^verbatim>\<open>SIZE_MAX - s\<close> nodes, every node has a unique id other than \<^verbatim>\<open>SIZE_MAX\<close>
  and the ids of the tree are pairwise distinct.
\<close>

theorem unique_ids_after_numbering:
  fixes t :: "'p obj"
  shows "unique_id (Node l) = SIZE_MAX
    \<and> (unat s + count t < 2 ^ 64 \<longrightarrow>
         distinct (ids (fst (number t s)))
         \<and> SIZE_MAX \<notin> set (ids (fst (number t s)))
         \<and> length (ids (fst (number t s))) = count t)"
proof (intro conjI impI)
  show "unique_id (Node l) = SIZE_MAX" by (simp add: Node_def)
  have ids: "ids (fst (number t s)) = map (\<lambda>i. s + of_nat i) [0 ..< count t]"
    using number_ids(1) [of t s] by simp
  then show "length (ids (fst (number t s))) = count t" by simp
  assume small: "unat s + count t < 2 ^ 64"
  then have "count t \<le> 2 ^ LENGTH(64)" by simp
  then show "distinct (ids (fst (number t s)))"
    unfolding ids by (rule distinct_consecutive_word)
  from small have "unat s + count t < 2 ^ LENGTH(64)" by simp
  then show "SIZE_MAX \<notin> set (ids (fst (number t s)))"
    unfolding ids SIZE_MAX_def by (rule no_max_word)
qed

theorem unique_ids_after_numbering_witness:
  "unat (0 :: size_t)
     + count (Obj 0 (Node l0) ''Model'' [Obj 1 (Node l0) ''VarDecl'' [] [],
                                         Obj 2 (Node l0) ''StartState'' [] [] ] []) < 2 ^ 64
   \<and> ids (Obj 0 (Node l0) ''Model'' [Obj 1 (Node l0) ''VarDecl'' [] [],
                                      Obj 2 (Node l0) ''StartState'' [] [] ] [])
       = [SIZE_MAX, SIZE_MAX, SIZE_MAX]
   \<and> ids (fst (number (Obj 0 (Node l0) ''Model'' [Obj 1 (Node l0) ''VarDecl'' [] [],
                                      Obj 2 (Node l0) ''StartState'' [] [] ] []) 0))
       = [0, 1, 2]
   \<and> distinct (ids (fst (number (Obj 0 (Node l0) ''Model'' [Obj 1 (Node l0) ''VarDecl'' [] [],
                                      Obj 2 (Node l0) ''StartState'' [] [] ] []) 0)))"
  using unique_ids_after_numbering [where s = 0 and l = l0
      and t = "Obj 0 (Node l0) ''Model'' [Obj 1 (Node l0) ''VarDecl'' [] [],
                                          Obj 2 (Node l0) ''StartState'' [] [] ] []"]
  by (simp add: Node_def)


section \<open>Properties of cloning\<close>

lemma clone_equals:
  fixes n :: "'p obj" and ns :: "'p obj list"
  shows "equals (fst (clone_obj n k)) n"
  and "vector_eq (fst (clone_all ns k)) ns"
  by (induction n k and ns k rule: clone_obj_clone_all.induct)
     (auto split: prod.splits)

lemma clone_back_links:
  fixes n :: "'p obj" and ns :: "'p obj list"
  shows "back_links (fst (clone_obj n k)) = back_links n"
  and "concat (map back_links (fst (clone_all ns k))) = concat (map back_links ns)"
  by (induction n k and ns k rule: clone_obj_clone_all.induct)
     (auto split: prod.splits)

lemma clone_addresses:
  fixes n :: "'p obj" and ns :: "'p obj list"
  shows "(\<forall>x \<in> addresses (fst (clone_obj n k)). k \<le> x \<and> x < snd (clone_obj n k)) \<and> k < snd (clone_obj n k)"
  and "(\<forall>x \<in> addresses_all (fst (clone_all ns k)). k \<le> x \<and> x < snd (clone_all ns k)) \<and> k \<le> snd (clone_all ns k)"
proof (induction n k and ns k rule: clone_obj_clone_all.induct)
  case (1 a h p cs ls k)
  then show ?case
    by (fastforce split: prod.splits simp: addresses_all_def)
next
  case (2 k)
  then show ?case by (simp add: addresses_all_def)
next
  case (3 c cs k)
  obtain c' n1 where c: "clone_obj c k = (c', n1)" by (cases "clone_obj c k")
  obtain cs' n2 where cs: "clone_all cs n1 = (cs', n2)" by (cases "clone_all cs n1")
  from 3(1) c have 1: "\<forall>x \<in> addresses c'. k \<le> x \<and> x < n1" "k < n1" by auto
  from 3(2) [OF c [symmetric] refl] cs
  have 2: "\<forall>x \<in> addresses_all cs'. n1 \<le> x \<and> x < n2" "n1 \<le> n2" by auto
  from 1 2 show ?case
    by (fastforce simp: c cs addresses_all_def)
qed

lemma store_elsewhere:
  "x \<notin> addresses n \<Longrightarrow> store x w n = n"
  by (induction n) (auto simp: map_idI)

lemma store_all_elsewhere:
  "x \<notin> addresses_all ns \<Longrightarrow> map (store x w) ns = ns"
  by (auto simp: addresses_all_def store_elsewhere map_idI)

lemma clone_obj_result:
  assumes "clone_obj n k = (n', k')"
  shows "equals n' n" and "back_links n' = back_links n" and "k < k'"
    and "\<And>x. x \<in> addresses n' \<Longrightarrow> k \<le> x"
  using clone_equals(1) [of n k] clone_back_links(1) [of n k] clone_addresses(1) [of n k] assms
  by auto

lemma clone_all_result:
  assumes "clone_all ns k = (ns', k')"
  shows "vector_eq ns' ns" and "concat (map back_links ns') = concat (map back_links ns)"
    and "k \<le> k'" and "\<And>x. x \<in> addresses_all ns' \<Longrightarrow> k \<le> x"
  using clone_equals(2) [of ns k] clone_back_links(2) [of ns k] clone_addresses(2) [of ns k] assms
  by auto

lemma clone_opt_conj:
  assumes "clone_opt g k = (g', k')"
  shows "opt_eq g' g \<and> concat (map back_links (owned g')) = concat (map back_links (owned g))
    \<and> k \<le> k' \<and> (\<forall>x. x \<in> addresses_all (owned g') \<longrightarrow> k \<le> x)"
proof (cases g)
  case None
  with assms show ?thesis by (auto simp: addresses_all_def)
next
  case (Some e)
  obtain e' n where e: "clone_obj e k = (e', n)" by (cases "clone_obj e k")
  with assms Some have "g' = Some e'" "k' = n" by auto
  with clone_obj_result [OF e] Some show ?thesis
    by (auto simp: addresses_all_def)
qed

lemma clone_opt_result:
  assumes "clone_opt g k = (g', k')"
  shows "opt_eq g' g" and "concat (map back_links (owned g')) = concat (map back_links (owned g))"
    and "k \<le> k'" and "\<And>x. x \<in> addresses_all (owned g') \<Longrightarrow> k \<le> x"
  using clone_opt_conj [OF assms] by auto

lemma store_opt_elsewhere:
  "x \<notin> addresses_all (owned g) \<Longrightarrow> map_option (store x w) g = g"
  by (cases g) (auto simp: addresses_all_def store_elsewhere)

lemma SimpleRule_clone_result:
  assumes "SimpleRule_clone r k = (r', k')"
  shows "SimpleRule_eq r' r" and "SimpleRule_back_links r' = SimpleRule_back_links r"
    and "\<And>x. x \<in> SimpleRule_addresses r' \<Longrightarrow> k \<le> x"
proof -
  obtain a h name qs as g ds body where r: "r = SimpleRule_obj a h name qs as g ds body"
    by (cases r)
  obtain qs' n1 where 1: "clone_all qs (Suc k) = (qs', n1)" by (cases "clone_all qs (Suc k)")
  obtain as' n2 where 2: "clone_all as n1 = (as', n2)" by (cases "clone_all as n1")
  obtain g' n3 where 3: "clone_opt g n2 = (g', n3)" by (cases "clone_opt g n2")
  obtain body' n4 where 4: "clone_all body n3 = (body', n4)" by (cases "clone_all body n3")
  obtain ds' n5 where 5: "clone_all ds n4 = (ds', n5)" by (cases "clone_all ds n4")
  from assms have r': "r' = SimpleRule_obj k h name qs' as' g' ds' body'"
    by (simp add: r 1 2 3 4 5)
  note A = clone_all_result [OF 1] clone_all_result [OF 2] clone_opt_result [OF 3]
    clone_all_result [OF 4] clone_all_result [OF 5]
  show "SimpleRule_eq r' r" using A by (simp add: r r')
  show "SimpleRule_back_links r' = SimpleRule_back_links r" using A by (simp add: r r')
  show "k \<le> x" if "x \<in> SimpleRule_addresses r'" for x
  proof -
    from that consider "x = k" | "x \<in> addresses_all qs'" | "x \<in> addresses_all as'"
      | "x \<in> addresses_all (owned g')" | "x \<in> addresses_all body'" | "x \<in> addresses_all ds'"
      by (auto simp: r')
    then show ?thesis
    proof cases
      case 1 then show ?thesis by simp
    next
      case 2 with A(4) [of x] show ?thesis by simp
    next
      case 3 with A(8) [of x] A(3) show ?thesis by simp
    next
      case 4 with A(12) [of x] A(3,7) show ?thesis by simp
    next
      case 5 with A(16) [of x] A(3,7,11) show ?thesis by simp
    next
      case 6 with A(20) [of x] A(3,7,11,15) show ?thesis by simp
    qed
  qed
qed

lemma Function_clone_result:
  assumes "Function_clone f k = (f', k')"
  shows "Function_eq f' f" and "Function_back_links f' = Function_back_links f"
    and "\<And>x. x \<in> Function_addresses f' \<Longrightarrow> k \<le> x"
proof -
  obtain a h name ps rt ds body where f: "f = Function_obj a h name ps rt ds body"
    by (cases f)
  obtain rt' n1 where 1: "clone_opt rt (Suc k) = (rt', n1)" by (cases "clone_opt rt (Suc k)")
  obtain ps' n2 where 2: "clone_all ps n1 = (ps', n2)" by (cases "clone_all ps n1")
  obtain ds' n3 where 3: "clone_all ds n2 = (ds', n3)" by (cases "clone_all ds n2")
  obtain body' n4 where 4: "clone_all body n3 = (body', n4)" by (cases "clone_all body n3")
  from assms have f': "f' = Function_obj k h name ps' rt' ds' body'"
    by (simp add: f 1 2 3 4)
  note A = clone_opt_result [OF 1] clone_all_result [OF 2] clone_all_result [OF 3]
    clone_all_result [OF 4]
  show "Function_eq f' f" using A by (simp add: f f')
  show "Function_back_links f' = Function_back_links f" using A by (simp add: f f')
  show "k \<le> x" if "x \<in> Function_addresses f'" for x
  proof -
    from that consider "x = k" | "x \<in> addresses_all (owned rt')" | "x \<in> addresses_all ps'"
      | "x \<in> addresses_all ds'" | "x \<in> addresses_all body'"
      by (auto simp: f')
    then show ?thesis
    proof cases
      case 1 then show ?thesis by simp
    next
      case 2 with A(4) [of x] show ?thesis by simp
    next
      case 3 with A(8) [of x] A(3) show ?thesis by simp
    next
      case 4 with A(12) [of x] A(3,7) show ?thesis by simp
    next
      case 5 with A(16) [of x] A(3,7,11) show ?thesis by simp
    qed
  qed
qed

lemma SimpleRule_store_elsewhere:
  "x \<notin> SimpleRule_addresses r \<Longrightarrow> SimpleRule_store x w wr r = r"
  by (cases r) (simp add: store_all_elsewhere store_opt_elsewhere)

lemma Function_store_elsewhere:
  "x \<notin> Function_addresses f \<Longrightarrow> Function_store x w wr f = f"
  by (cases f) (simp add: store_all_elsewhere store_opt_elsewhere)

text \<open>
  C4: a clone is structurally equal to its source and carries the same back-links; it
  is made of newly allocated objects only, so that, the allocator handing out addresses
  not in use, no object of the clone is an object of the source, and a write through any
  address of the clone leaves the source as it was. This holds for the node classes
  modelled from the specification, and for \<^verbatim>\<open>SimpleRule\<close> and \<^verbatim>\<open>Function\<close> with the copy
  constructors and comparison operators of \<^verbatim>\<open>Rule.cc\<close> and \<^verbatim>\<open>Function.cc\<close>.
\<close>

theorem clone_equal_and_detached:
  fixes n :: "'p obj" and r :: "'p simple_rule_obj" and f :: "'p function_obj"
  shows
  "equals (fst (clone_obj n k)) n
   \<and> back_links (fst (clone_obj n k)) = back_links n
   \<and> (addresses n \<subseteq> {..<k} \<longrightarrow>
        addresses (fst (clone_obj n k)) \<inter> addresses n = {}
        \<and> (\<forall>x \<in> addresses (fst (clone_obj n k)). store x w n = n))
   \<and> SimpleRule_eq (fst (SimpleRule_clone r k)) r
   \<and> SimpleRule_back_links (fst (SimpleRule_clone r k)) = SimpleRule_back_links r
   \<and> (SimpleRule_addresses r \<subseteq> {..<k} \<longrightarrow>
        SimpleRule_addresses (fst (SimpleRule_clone r k)) \<inter> SimpleRule_addresses r = {}
        \<and> (\<forall>x \<in> SimpleRule_addresses (fst (SimpleRule_clone r k)).
              SimpleRule_store x w wr r = r))
   \<and> Function_eq (fst (Function_clone f k)) f
   \<and> Function_back_links (fst (Function_clone f k)) = Function_back_links f
   \<and> (Function_addresses f \<subseteq> {..<k} \<longrightarrow>
        Function_addresses (fst (Function_clone f k)) \<inter> Function_addresses f = {}
        \<and> (\<forall>x \<in> Function_addresses (fst (Function_clone f k)).
              Function_store x w wfn f = f))"
proof -
  obtain n' k1 where n: "clone_obj n k = (n', k1)" by (cases "clone_obj n k")
  obtain r' k2 where r: "SimpleRule_clone r k = (r', k2)" by (cases "SimpleRule_clone r k")
  obtain f' k3 where f: "Function_clone f k = (f', k3)" by (cases "Function_clone f k")
  note N = clone_obj_result [OF n] and R = SimpleRule_clone_result [OF r]
    and F = Function_clone_result [OF f]
  have "addresses n' \<inter> addresses n = {} \<and> (\<forall>x \<in> addresses n'. store x w n = n)"
    if "addresses n \<subseteq> {..<k}"
  proof -
    from that N(4) have "x \<notin> addresses n" if "x \<in> addresses n'" for x
      using that by fastforce
    then show ?thesis by (auto simp: store_elsewhere)
  qed
  moreover have "SimpleRule_addresses r' \<inter> SimpleRule_addresses r = {}
      \<and> (\<forall>x \<in> SimpleRule_addresses r'. SimpleRule_store x w wr r = r)"
    if "SimpleRule_addresses r \<subseteq> {..<k}"
  proof -
    from that R(3) have "x \<notin> SimpleRule_addresses r" if "x \<in> SimpleRule_addresses r'" for x
      using that by fastforce
    then show ?thesis by (auto simp: SimpleRule_store_elsewhere)
  qed
  moreover have "Function_addresses f' \<inter> Function_addresses f = {}
      \<and> (\<forall>x \<in> Function_addresses f'. Function_store x w wfn f = f)"
    if "Function_addresses f \<subseteq> {..<k}"
  proof -
    from that F(3) have "x \<notin> Function_addresses f" if "x \<in> Function_addresses f'" for x
      using that by fastforce
    then show ?thesis by (auto simp: Function_store_elsewhere)
  qed
  ultimately show ?thesis
    using N(1,2) R(1,2) F(1,2) by (simp add: n r f)
qed

theorem clone_equal_and_detached_witness:
  "addresses (Obj 0 h0 ''ExprID x'' [] [7]) \<subseteq> {..<10}
   \<and> fst (clone_obj (Obj 0 h0 ''ExprID x'' [] [7]) 10) = Obj 10 h0 ''ExprID x'' [] [7]
   \<and> equals (Obj 10 h0 ''ExprID x'' [] [7]) (Obj 0 h0 ''ExprID x'' [] [7])
   \<and> SimpleRule_addresses
        (SimpleRule_obj 1 h0 ''r'' [] [] (Some (Obj 2 h0 ''ExprID x'' [] [7])) []
           [Obj 3 h0 ''Return'' [] [] ]) \<subseteq> {..<10}
   \<and> fst (SimpleRule_clone
        (SimpleRule_obj 1 h0 ''r'' [] [] (Some (Obj 2 h0 ''ExprID x'' [] [7])) []
           [Obj 3 h0 ''Return'' [] [] ]) 10)
       = SimpleRule_obj 10 h0 ''r'' [] [] (Some (Obj 11 h0 ''ExprID x'' [] [7])) []
           [Obj 12 h0 ''Return'' [] [] ]
   \<and> SimpleRule_eq
        (SimpleRule_obj 10 h0 ''r'' [] [] (Some (Obj 11 h0 ''ExprID x'' [] [7])) []
           [Obj 12 h0 ''Return'' [] [] ])
        (SimpleRule_obj 1 h0 ''r'' [] [] (Some (Obj 2 h0 ''ExprID x'' [] [7])) []
           [Obj 3 h0 ''Return'' [] [] ])
   \<and> Function_addresses
        (Function_obj 4 h0 ''f'' [Obj 5 h0 ''VarDecl a'' [] [] ] None []
           [Obj 6 h0 ''Return'' [] [] ]) \<subseteq> {..<10}
   \<and> fst (Function_clone
        (Function_obj 4 h0 ''f'' [Obj 5 h0 ''VarDecl a'' [] [] ] None []
           [Obj 6 h0 ''Return'' [] [] ]) 10)
       = Function_obj 10 h0 ''f'' [Obj 11 h0 ''VarDecl a'' [] [] ] None []
           [Obj 12 h0 ''Return'' [] [] ]
   \<and> Function_eq
        (Function_obj 10 h0 ''f'' [Obj 11 h0 ''VarDecl a'' [] [] ] None []
           [Obj 12 h0 ''Return'' [] [] ])
        (Function_obj 4 h0 ''f'' [Obj 5 h0 ''VarDecl a'' [] [] ] None []
           [Obj 6 h0 ''Return'' [] [] ])"
  using clone_equal_and_detached [where k = 10 and n = "Obj 0 h0 ''ExprID x'' [] [7]"
      and r = "SimpleRule_obj 1 h0 ''r'' [] [] (Some (Obj 2 h0 ''ExprID x'' [] [7])) []
           [Obj 3 h0 ''Return'' [] [] ]"
      and f = "Function_obj 4 h0 ''f'' [Obj 5 h0 ''VarDecl a'' [] [] ] None []
           [Obj 6 h0 ''Return'' [] [] ]"]
  by (simp add: addresses_all_def)

end
